theory Spec2Isabelle
  imports Main "HOL-Library.Sublist"
begin

section \<open>Strings and regular expressions\<close>

text \<open>
  Text is modelled as \<^typ>\<open>string\<close>; one \<^typ>\<open>char\<close> stands for one code unit of a
  JavaScript string, so the model covers texts over the first 256 code units.

  The three regular expressions of \<^verbatim>\<open>index.ts\<close> are sequences of literal characters and
  of greedy repetitions of one character class, with or without a capture group. A pattern is
  a list of such atoms; \<open>Rep p n\<close> is the class \<open>p\<close> repeated at least \<open>n\<close> times (\<open>*\<close> is
  \<open>n = 0\<close>, \<open>+\<close> is \<open>n = 1\<close>), \<open>Grp p n\<close> the same inside a capture group.
\<close>

datatype atom = Lit char | Rep "char \<Rightarrow> bool" nat | Grp "char \<Rightarrow> bool" nat

fun first_some :: "('a \<Rightarrow> 'b option) \<Rightarrow> 'a list \<Rightarrow> 'b option" where
  "first_some f [] = None"
| "first_some f (x # xs) = (case f x of Some y \<Rightarrow> Some y | None \<Rightarrow> first_some f xs)"

text \<open>
  A greedy repetition first takes as many characters as the class allows and gives them back
  one at a time while the rest of the pattern fails: the lengths it tries, in order.
\<close>

definition greedy_lens :: "(char \<Rightarrow> bool) \<Rightarrow> nat \<Rightarrow> string \<Rightarrow> nat list" where
  "greedy_lens p n s = rev [n ..< Suc (length (takeWhile p s))]"

text \<open>
  \<open>rx_match r s\<close> matches the pattern \<open>r\<close> at the start of \<open>s\<close> by backtracking and returns
  the captured groups, in order, and the text left after the match.
\<close>

fun rx_match :: "atom list \<Rightarrow> string \<Rightarrow> (string list \<times> string) option" where
  "rx_match [] s = Some ([], s)"
| "rx_match (Lit c # r) s =
     (case s of [] \<Rightarrow> None | x # xs \<Rightarrow> if x = c then rx_match r xs else None)"
| "rx_match (Rep p n # r) s =
     first_some (\<lambda>k. rx_match r (drop k s)) (greedy_lens p n s)"
| "rx_match (Grp p n # r) s =
     first_some
       (\<lambda>k. case rx_match r (drop k s) of
              None \<Rightarrow> None
            | Some (caps, rest) \<Rightarrow> Some (take k s # caps, rest))
       (greedy_lens p n s)"

text \<open>
  \<open>String.prototype.match\<close> with a pattern without the \<open>g\<close> flag: the match at the leftmost
  start position, as the whole matched text (index 0 of the result) and the groups (indices
  1, 2, ...); \<open>None\<close> is JavaScript's \<open>null\<close>.
\<close>

fun js_match :: "atom list \<Rightarrow> string \<Rightarrow> (string \<times> string list) option" where
  "js_match r [] =
     (case rx_match r [] of
        Some (caps, rest) \<Rightarrow> Some ([], caps)
      | None \<Rightarrow> None)"
| "js_match r (x # xs) =
     (case rx_match r (x # xs) of
        Some (caps, rest) \<Rightarrow> Some (take (length (x # xs) - length rest) (x # xs), caps)
      | None \<Rightarrow> js_match r xs)"

text \<open>Reading a group of a match: a group that is not there is \<open>undefined\<close> (\<open>None\<close>).\<close>

definition group :: "string list \<Rightarrow> nat \<Rightarrow> string option" where
  "group caps i = (if i < length caps then Some (caps ! i) else None)"

text \<open>\<open>!x\<close> for a value that is a string or \<open>undefined\<close>.\<close>

fun falsy :: "string option \<Rightarrow> bool" where
  "falsy None = True"
| "falsy (Some s) = (s = [])"

definition is_digit :: "char \<Rightarrow> bool" where
  "is_digit c = (c \<in> set ''0123456789'')"

definition not_slash :: "char \<Rightarrow> bool" where
  "not_slash c = (c \<noteq> CHR ''/'')"

definition not_query_hash :: "char \<Rightarrow> bool" where
  "not_query_hash c = (c \<noteq> CHR ''?'' \<and> c \<noteq> CHR ''#'')"

definition any_char :: "char \<Rightarrow> bool" where
  "any_char c = True"

text \<open>\<^verbatim>\<open>/github\.com\/([^\/]+)\/([^\/]+)\/pull\/(\d+)/\<close>\<close>

definition prRegex :: "atom list" where
  "prRegex = map Lit ''github.com/'' @ [Grp not_slash 1, Lit CHR ''/'', Grp not_slash 1]
             @ map Lit ''/pull/'' @ [Grp is_digit 1]"

text \<open>\<^verbatim>\<open>/github\.com\/([^\/]+)\/([^\/]+)\/compare\/([^?#]+)/\<close>\<close>

definition compareRegex :: "atom list" where
  "compareRegex = map Lit ''github.com/'' @ [Grp not_slash 1, Lit CHR ''/'', Grp not_slash 1]
             @ map Lit ''/compare/'' @ [Grp not_query_hash 1]"

text \<open>\<^verbatim>\<open>/\{[\s\S]*\}/\<close>\<close>

definition jsonRegex :: "atom list" where
  "jsonRegex = [Lit CHR ''{'', Rep any_char 0, Lit CHR ''}'']"

subsection \<open>\<open>String.prototype.split\<close> with a separator string\<close>

text \<open>
  The text is cut at each occurrence of the (non-empty) separator, found from left to right
  without overlaps. \<open>split_acc sep cur s\<close> carries the part read so far, reversed.
\<close>

definition starts_with :: "string \<Rightarrow> string \<Rightarrow> bool" where
  "starts_with sep s = (take (length sep) s = sep)"

function split_acc :: "string \<Rightarrow> string \<Rightarrow> string \<Rightarrow> string list" where
  "split_acc sep cur [] = [rev cur]"
| "split_acc sep cur (x # xs) =
     (if sep \<noteq> [] \<and> starts_with sep (x # xs)
      then rev cur # split_acc sep [] (drop (length sep) (x # xs))
      else split_acc sep (x # cur) xs)"
  by pat_completeness auto
termination
  by (relation "measure (\<lambda>(sep, cur, s). length s)") auto

definition split :: "string \<Rightarrow> string \<Rightarrow> string list" where
  "split s sep = split_acc sep [] s"

subsection \<open>\<open>parseInt(s, 10)\<close>\<close>

text \<open>
  Leading white space is skipped, a sign is read, then the longest run of decimal digits;
  without a digit the result is \<open>NaN\<close> (\<open>None\<close>). Numbers are modelled as mathematical
  integers; JavaScript's numbers are exact up to \<open>2 ^ 53\<close> and rounded above, so the model
  gives the value of \<open>parseInt\<close> for digits that denote a number up to \<open>2 ^ 53\<close>, and its sign
  for all digits.
\<close>

definition is_js_space :: "char \<Rightarrow> bool" where
  "is_js_space c = (of_char c \<in> {9, 10, 11, 12, 13, 32, 160 :: nat})"

definition digit_val :: "char \<Rightarrow> int" where
  "digit_val c = int (of_char c) - 48"

definition digits_val :: "string \<Rightarrow> int" where
  "digits_val ds = foldl (\<lambda>acc c. 10 * acc + digit_val c) 0 ds"

definition parseInt :: "string \<Rightarrow> int option" where
  "parseInt str =
     (let s = dropWhile is_js_space str;
          (neg, s') = (case s of
                         [] \<Rightarrow> (False, s)
                       | c # cs \<Rightarrow> if c = CHR ''-'' then (True, cs)
                                  else if c = CHR ''+'' then (False, cs) else (False, s));
          ds = takeWhile is_digit s'
      in if ds = [] then None
         else Some (if neg then - digits_val ds else digits_val ds))"

section \<open>The URL parser\<close>

record PRDetails =
  owner :: string
  repo :: string
  pull_number :: int

record CompareDetails =
  c_owner :: string
  c_repo :: string
  base :: string
  head :: string

datatype URLDetails = Pr PRDetails | Compare CompareDetails

text \<open>
  What a \<open>throw\<close> carries: an \<open>Error\<close> with its message, the \<open>SyntaxError\<close> of
  \<open>JSON.parse\<close> (an \<open>Error\<close> too; its message is the engine's), or a value that is not an
  \<open>Error\<close>.
\<close>

datatype thrown = Error string | SyntaxError | NonError

definition invalid_url_message :: string where
  "invalid_url_message =
     ''Invalid GitHub URL. Expected format: ''
     @ ''https://github.com/owner/repo/pull/123 or ''
     @ ''https://github.com/owner/repo/compare/base...head''"

definition parseGitHubUrl :: "string \<Rightarrow> thrown + URLDetails" where
  "parseGitHubUrl url =
     (if url = [] then Inl (Error ''GitHub URL is required and must be a string'')
      else case js_match prRegex url of
        Some (whole, caps) \<Rightarrow>
          (let owner = group caps 0; repo = group caps 1; pullNumberStr = group caps 2
           in if falsy owner \<or> falsy repo \<or> falsy pullNumberStr
              then Inl (Error ''Failed to extract owner, repo, or pull number from URL'')
              else case parseInt (the pullNumberStr) of
                     None \<Rightarrow> Inl (Error ''Invalid pull number in URL'')
                   | Some n \<Rightarrow>
                       if n \<le> 0 then Inl (Error ''Invalid pull number in URL'')
                       else Inr (Pr \<lparr>owner = the owner, repo = the repo, pull_number = n\<rparr>))
      | None \<Rightarrow>
          (case js_match compareRegex url of
             Some (whole, caps) \<Rightarrow>
               (let owner = group caps 0; repo = group caps 1; comparison = group caps 2
                in if falsy owner \<or> falsy repo \<or> falsy comparison
                   then Inl (Error ''Failed to extract owner, repo, or comparison from URL'')
                   else let parts = split (the comparison) ''...''
                        in if length parts = 2
                           then Inr (Compare \<lparr>c_owner = the owner, c_repo = the repo,
                                               base = parts ! 0, head = parts ! 1\<rparr>)
                           else if length parts = 1
                           then Inr (Compare \<lparr>c_owner = the owner, c_repo = the repo,
                                               base = ''main'', head = parts ! 0\<rparr>)
                           else Inl (Error ''Invalid comparison format in URL''))
           | None \<Rightarrow>
               Inl (Error invalid_url_message)))"

text \<open>The number of slashes of a text, for the proofs about the URL patterns.\<close>

definition slashes :: "string \<Rightarrow> nat" where
  "slashes s = length (filter (\<lambda>c. c = CHR ''/'') s)"

section \<open>JSON\<close>

text \<open>
  \<open>JSON.parse\<close> and \<open>JSON.stringify\<close> belong to the language, not to the repository; they are
  modelled after the JSON grammar. A parsed string is a list of code units, since an escape
  \<open>\uXXXX\<close> can denote any of them; a number keeps its text.
  An object keeps its members in the order of the text; reading a property takes the last
  member with that name, as \<open>JSON.parse\<close> lets a later duplicate overwrite an earlier one.
\<close>

datatype json =
    JNull
  | JBool bool
  | JNumber string
  | JString "nat list"
  | JArray "json list"
  | JObject "(nat list \<times> json) list"

definition units :: "string \<Rightarrow> nat list" where
  "units s = map of_char s"

definition is_json_ws :: "char \<Rightarrow> bool" where
  "is_json_ws c = (of_char c \<in> {9, 10, 13, 32 :: nat})"

definition skip_ws :: "string \<Rightarrow> string" where
  "skip_ws s = dropWhile is_json_ws s"

definition hex_val :: "char \<Rightarrow> nat option" where
  "hex_val c =
     (let n = of_char c :: nat
      in if 48 \<le> n \<and> n \<le> 57 then Some (n - 48)
         else if 65 \<le> n \<and> n \<le> 70 then Some (n - 55)
         else if 97 \<le> n \<and> n \<le> 102 then Some (n - 87)
         else None)"

text \<open>The four hexadecimal digits of a \<open>\u\<close> escape.\<close>

definition hex4 :: "string \<Rightarrow> nat option" where
  "hex4 s =
     (case map hex_val (take 4 s) of
        [Some a, Some b, Some c, Some d] \<Rightarrow> Some (((a * 16 + b) * 16 + c) * 16 + d)
      | _ \<Rightarrow> None)"

definition escape_unit :: "char \<Rightarrow> nat option" where
  "escape_unit e =
     (if e = CHR 0x22 then Some 0x22
      else if e = CHR 0x5C then Some 0x5C
      else if e = CHR ''/'' then Some 0x2F
      else if e = CHR ''b'' then Some 8
      else if e = CHR ''f'' then Some 12
      else if e = CHR ''n'' then Some 10
      else if e = CHR ''r'' then Some 13
      else if e = CHR ''t'' then Some 9
      else None)"

text \<open>
  The characters of a string after its opening quote, up to the closing quote: the code units
  read (in \<open>acc\<close>, reversed) and the text after the closing quote.
\<close>

function parse_string_body :: "string \<Rightarrow> nat list \<Rightarrow> (nat list \<times> string) option" where
  "parse_string_body [] acc = None"
| "parse_string_body (c # cs) acc =
     (if c = CHR 0x22 then Some (rev acc, cs)
      else if c = CHR 0x5C then
        (case cs of
           [] \<Rightarrow> None
         | e # cs' \<Rightarrow>
             if e = CHR ''u'' then
               (case hex4 cs' of
                  None \<Rightarrow> None
                | Some u \<Rightarrow> parse_string_body (drop 4 cs') (u # acc))
             else (case escape_unit e of
                     None \<Rightarrow> None
                   | Some u \<Rightarrow> parse_string_body cs' (u # acc)))
      else if (of_char c :: nat) < 32 then None
      else parse_string_body cs (of_char c # acc))"
  by pat_completeness auto
termination
  by (relation "measure (\<lambda>(s, acc). length s)") auto

text \<open>
  The text of a number: \<open>-? (0 | [1-9][0-9]*) (. [0-9]+)? ([eE] [+-]? [0-9]+)?\<close>.
\<close>

definition parse_int_part :: "string \<Rightarrow> (string \<times> string) option" where
  "parse_int_part s =
     (case s of
        [] \<Rightarrow> None
      | c # cs \<Rightarrow>
          if c = CHR ''0'' then Some ([c], cs)
          else if is_digit c then Some (takeWhile is_digit s, dropWhile is_digit s)
          else None)"

definition parse_frac_part :: "string \<Rightarrow> (string \<times> string) option" where
  "parse_frac_part s =
     (case s of
        [] \<Rightarrow> Some ([], s)
      | c # cs \<Rightarrow>
          if c = CHR ''.'' then
            (if takeWhile is_digit cs = [] then None
             else Some (c # takeWhile is_digit cs, dropWhile is_digit cs))
          else Some ([], s))"

definition parse_exp_part :: "string \<Rightarrow> (string \<times> string) option" where
  "parse_exp_part s =
     (case s of
        [] \<Rightarrow> Some ([], s)
      | c # cs \<Rightarrow>
          if c = CHR ''e'' \<or> c = CHR ''E'' then
            (let (sign, ds) = (case cs of
                                 [] \<Rightarrow> ([], cs)
                               | g # cs' \<Rightarrow> if g = CHR ''+'' \<or> g = CHR ''-'' then ([g], cs')
                                            else ([], cs))
             in if takeWhile is_digit ds = [] then None
                else Some (c # sign @ takeWhile is_digit ds, dropWhile is_digit ds))
          else Some ([], s))"

definition parse_number :: "string \<Rightarrow> (string \<times> string) option" where
  "parse_number s =
     (let (sign, s1) = (case s of
                          [] \<Rightarrow> ([], s)
                        | c # cs \<Rightarrow> if c = CHR ''-'' then ([c], cs) else ([], s))
      in case parse_int_part s1 of
           None \<Rightarrow> None
         | Some (i, s2) \<Rightarrow>
             (case parse_frac_part s2 of
                None \<Rightarrow> None
              | Some (f, s3) \<Rightarrow>
                  (case parse_exp_part s3 of
                     None \<Rightarrow> None
                   | Some (e, s4) \<Rightarrow> Some (sign @ i @ f @ e, s4))))"

text \<open>
  Values, the elements of an array and the members of an object. Each function returns what
  it read and the rest of the text. After a value or a string has been read, the rest is
  compared in length with the text before it: the rest is always shorter, and the test is
  there for the termination of the recursion.
\<close>

function parse_value :: "string \<Rightarrow> (json \<times> string) option"
  and parse_elements :: "string \<Rightarrow> json list \<Rightarrow> (json list \<times> string) option"
  and parse_members :: "string \<Rightarrow> (nat list \<times> json) list \<Rightarrow> ((nat list \<times> json) list \<times> string) option"
where
  "parse_value s =
     (case s of
        [] \<Rightarrow> None
      | c # cs \<Rightarrow>
          if c = CHR ''{'' then
            (case skip_ws cs of
               [] \<Rightarrow> None
             | d # ds \<Rightarrow>
                 if d = CHR ''}'' then Some (JObject [], ds)
                 else (case parse_members (d # ds) [] of
                         None \<Rightarrow> None
                       | Some (ms, r) \<Rightarrow> Some (JObject ms, r)))
          else if c = CHR ''['' then
            (case skip_ws cs of
               [] \<Rightarrow> None
             | d # ds \<Rightarrow>
                 if d = CHR '']'' then Some (JArray [], ds)
                 else (case parse_elements (d # ds) [] of
                         None \<Rightarrow> None
                       | Some (vs, r) \<Rightarrow> Some (JArray vs, r)))
          else if c = CHR 0x22 then
            (case parse_string_body cs [] of
               None \<Rightarrow> None
             | Some (u, r) \<Rightarrow> Some (JString u, r))
          else if starts_with ''true'' s then Some (JBool True, drop 4 s)
          else if starts_with ''false'' s then Some (JBool False, drop 5 s)
          else if starts_with ''null'' s then Some (JNull, drop 4 s)
          else (case parse_number s of
                  None \<Rightarrow> None
                | Some (n, r) \<Rightarrow> Some (JNumber n, r)))"
| "parse_elements s acc =
     (case parse_value s of
        None \<Rightarrow> None
      | Some (v, r) \<Rightarrow>
          if length r < length s then
            (case skip_ws r of
               [] \<Rightarrow> None
             | d # ds \<Rightarrow>
                 if d = CHR '','' then parse_elements (skip_ws ds) (acc @ [v])
                 else if d = CHR '']'' then Some (acc @ [v], ds)
                 else None)
          else None)"
| "parse_members s acc =
     (case s of
        [] \<Rightarrow> None
      | q # cs \<Rightarrow>
          if q = CHR 0x22 then
            (case parse_string_body cs [] of
               None \<Rightarrow> None
             | Some (k, r) \<Rightarrow>
                 if length r < length s then
                   (case skip_ws r of
                      [] \<Rightarrow> None
                    | d # ds \<Rightarrow>
                        if d = CHR '':'' then
                          (case parse_value (skip_ws ds) of
                             None \<Rightarrow> None
                           | Some (v, r') \<Rightarrow>
                               if length r' < length (skip_ws ds) then
                                 (case skip_ws r' of
                                    [] \<Rightarrow> None
                                  | e # es \<Rightarrow>
                                      if e = CHR '','' then
                                        parse_members (skip_ws es) (acc @ [(k, v)])
                                      else if e = CHR ''}'' then Some (acc @ [(k, v)], es)
                                      else None)
                               else None)
                        else None)
                 else None)
          else None)"
  by pat_completeness auto

termination
proof (relation "measure (\<lambda>x. case x of
          Inl s \<Rightarrow> 2 * length s
        | Inr (Inl (s, acc)) \<Rightarrow> 2 * length s + 1
        | Inr (Inr (s, acc)) \<Rightarrow> 2 * length s + 1)", goal_cases)
  case 1
  then show ?case by simp
next
  case (2 s c cs d ds)
  then show ?case using length_dropWhile_le[of is_json_ws cs] by (simp add: skip_ws_def)
next
  case (3 s c cs d ds)
  then show ?case using length_dropWhile_le[of is_json_ws cs] by (simp add: skip_ws_def)
next
  case (4 s acc)
  then show ?case by simp
next
  case (5 s acc x v r d ds)
  then show ?case
    using length_dropWhile_le[of is_json_ws r] length_dropWhile_le[of is_json_ws ds]
    by (simp add: skip_ws_def)
next
  case (6 s acc q cs x k r d ds)
  then show ?case
    using length_dropWhile_le[of is_json_ws r] length_dropWhile_le[of is_json_ws ds]
    by (simp add: skip_ws_def)
next
  case (7 s acc q cs x k r d ds y v r' e es)
  then show ?case
    using length_dropWhile_le[of is_json_ws r] length_dropWhile_le[of is_json_ws ds]
      length_dropWhile_le[of is_json_ws r'] length_dropWhile_le[of is_json_ws es]
    by (simp add: skip_ws_def)
qed

definition JSON_parse :: "string \<Rightarrow> thrown + json" where
  "JSON_parse s =
     (case parse_value (skip_ws s) of
        None \<Rightarrow> Inl SyntaxError
      | Some (v, r) \<Rightarrow> if skip_ws r = [] then Inr v else Inl SyntaxError)"

text \<open>Reading a property of a parsed value; \<open>None\<close> is \<open>undefined\<close>.\<close>

fun get_prop :: "json \<Rightarrow> string \<Rightarrow> json option" where
  "get_prop (JObject ms) k = map_of (rev ms) (units k)"
| "get_prop v k = None"

subsection \<open>\<open>JSON.stringify\<close> of the file summaries\<close>

definition nl :: string where
  "nl = [CHR 0x0A]"

definition dq :: string where
  "dq = [CHR 0x22]"

definition hex_digit :: "nat \<Rightarrow> char" where
  "hex_digit n = (''0123456789abcdef'' ! (n mod 16))"

definition quote_char :: "char \<Rightarrow> string" where
  "quote_char c =
     (if c = CHR 0x22 then [CHR 0x5C, CHR 0x22]
      else if c = CHR 0x5C then [CHR 0x5C, CHR 0x5C]
      else if c = CHR 0x08 then [CHR 0x5C, CHR ''b'']
      else if c = CHR 0x0C then [CHR 0x5C, CHR ''f'']
      else if c = CHR 0x0A then [CHR 0x5C, CHR ''n'']
      else if c = CHR 0x0D then [CHR 0x5C, CHR ''r'']
      else if c = CHR 0x09 then [CHR 0x5C, CHR ''t'']
      else if (of_char c :: nat) < 32
      then [CHR 0x5C, CHR ''u'', CHR ''0'', CHR ''0'',
            hex_digit (of_char c div 16), hex_digit (of_char c)]
      else [c])"

definition quote :: "string \<Rightarrow> string" where
  "quote s = dq @ concat (map quote_char s) @ dq"

fun show_nat :: "nat \<Rightarrow> string" where
  "show_nat n =
     (if n < 10 then [''0123456789'' ! n]
      else show_nat (n div 10) @ [''0123456789'' ! (n mod 10)])"

definition show_int :: "int \<Rightarrow> string" where
  "show_int i = (if i < 0 then CHR ''-'' # show_nat (nat (- i)) else show_nat (nat i))"

fun join :: "string \<Rightarrow> string list \<Rightarrow> string" where
  "join sep [] = []"
| "join sep [x] = x"
| "join sep (x # y # ys) = x @ sep @ join sep (y # ys)"

record FileChange =
  filename :: string
  status :: string
  additions :: int
  deletions :: int
  changes :: int
  patch :: "string option"

text \<open>
  One element of \<open>filesChanged\<close>, printed with an indentation of two spaces inside the array;
  a \<open>patch\<close> that is \<open>undefined\<close> is left out, a patch is cut to its first 1000 characters.
  The three counts are integers, printed in decimal.
\<close>

definition stringify_file :: "FileChange \<Rightarrow> string" where
  "stringify_file f =
     ''  {'' @ nl
     @ join ('','' @ nl)
         ([''    '' @ quote ''filename'' @ '': '' @ quote (filename f),
           ''    '' @ quote ''status'' @ '': '' @ quote (status f),
           ''    '' @ quote ''additions'' @ '': '' @ show_int (additions f),
           ''    '' @ quote ''deletions'' @ '': '' @ show_int (deletions f),
           ''    '' @ quote ''changes'' @ '': '' @ show_int (changes f)]
          @ (case patch f of
               None \<Rightarrow> []
             | Some p \<Rightarrow> [''    '' @ quote ''patch'' @ '': '' @ quote (take 1000 p)]))
     @ nl @ ''  }''"

definition stringify_files :: "FileChange list \<Rightarrow> string" where
  "stringify_files fs =
     (if fs = [] then ''[]''
      else ''['' @ nl @ join ('','' @ nl) (map stringify_file fs) @ nl @ '']'')"

section \<open>The content generator\<close>

record prompt_context =
  currentTitle :: "string option"
  currentBody :: "string option"
  ctx_base :: "string option"
  ctx_head :: "string option"

definition contextInfo :: "prompt_context option \<Rightarrow> string" where
  "contextInfo ctx =
     (case ctx of
        None \<Rightarrow> []
      | Some c \<Rightarrow>
          nl
          @ (if falsy (currentTitle c) then [] else ''Current Title: '' @ the (currentTitle c))
          @ nl
          @ (if falsy (currentBody c) then [] else ''Current Description: '' @ the (currentBody c))
          @ nl
          @ (if \<not> falsy (ctx_base c) \<and> \<not> falsy (ctx_head c)
             then ''Comparing: '' @ the (ctx_base c) @ ''...'' @ the (ctx_head c) else [])
          @ nl)"

definition prompt_instructions :: string where
  "prompt_instructions = join nl
     [''Please generate:'',
      ''1. A PR title following the Conventional Commits format:'',
      ''   - Format: <type>(<scope>): <description>'',
      ''   - Types: feat, fix, docs, style, refactor, perf, test, build, ci, chore'',
      ''   - Scope: optional, the area of the codebase affected'',
      ''   - Description: brief summary in imperative mood, lowercase, no period at the end'',
      ''   - Example: '' @ dq @ ''feat(auth): add OAuth2 login support'' @ dq,
      ''   - Example: '' @ dq @ ''fix(api): resolve null pointer exception in user endpoint'' @ dq,
      '''',
      ''2. A well-structured PR description that includes:'',
      ''   - A brief summary of what this PR does'',
      ''   - Key changes made'',
      ''   - Any notable technical details'',
      '''',
      ''Format your response as JSON with this exact structure:'',
      ''{'',
      ''  '' @ dq @ ''title'' @ dq @ '': '' @ dq
         @ ''type(scope): description following conventional commits'' @ dq @ '','',
      ''  '' @ dq @ ''description'' @ dq @ '': '' @ dq
         @ ''Your PR description in markdown format here'' @ dq,
      ''}'',
      '''',
      ''Keep it concise and professional.'']"

definition build_prompt :: "FileChange list \<Rightarrow> prompt_context option \<Rightarrow> string" where
  "build_prompt files ctx =
     ''Analyze these GitHub changes and generate a clear, concise PR title and description.''
     @ nl @ contextInfo ctx @ nl
     @ ''Files Changed ('' @ show_nat (length files) @ '' files):'' @ nl
     @ stringify_files files @ nl
     @ nl @ prompt_instructions"

text \<open>A content block of the model's reply: text, or a block of another type.\<close>

datatype content_block = TextBlock string | OtherBlock

text \<open>
  What \<open>generateTitleAndDescription\<close> does with the reply, lines 202 to 213: the first block
  must be a text block, the text from its first \<open>{\<close> to its last \<open>}\<close> is parsed, and the
  parsed value is returned as it is.
\<close>

definition parse_reply :: "content_block list \<Rightarrow> thrown + json" where
  "parse_reply content =
     (case content of
        TextBlock text # _ \<Rightarrow>
          (case js_match jsonRegex text of
             Some (whole, caps) \<Rightarrow> JSON_parse whole
           | None \<Rightarrow> Inl (Error ''Could not parse JSON response from Claude''))
      | _ \<Rightarrow> Inl (Error ''Unexpected response format from Anthropic API''))"

section \<open>The command-line driver\<close>

text \<open>
  A run of \<open>main\<close> is modelled by what it does to the outside, in order, and by its exit
  code. A printed line is a list of pieces: text, a code point outside the model's characters
  (the pictographs of the messages), a number, a parsed value put into a template or printed
  as it is (\<open>None\<close> is \<open>undefined\<close>), or the message of a \<open>SyntaxError\<close>.
\<close>

datatype piece = S string | U nat | N int | V "json option" | SyntaxErrorMessage

record PRData =
  pr_title :: string
  pr_body :: "string option"
  html_url :: string

datatype request =
    PullsGet PRDetails
  | PullsListFiles PRDetails
  | CompareCommits string string string
  | MessagesCreate string nat string
  | PullsUpdate PRDetails "json option"

datatype event = Stdout "piece list" | Stderr "piece list" | Request request

text \<open>
  The world of a run: the arguments after the program's name, the two environment variables,
  and what the two remote services answer to each request (an answer or a thrown error).
\<close>

record world =
  argv :: "string list"
  GITHUB_PRD_TOKEN :: "string option"
  ANTHROPIC_API_KEY :: "string option"
  pulls_get :: "PRDetails \<Rightarrow> thrown + PRData"
  pulls_listFiles :: "PRDetails \<Rightarrow> thrown + FileChange list"
  compareCommitsWithBasehead :: "string \<Rightarrow> string \<Rightarrow> string \<Rightarrow> thrown + FileChange list option"
  messages_create :: "string \<Rightarrow> thrown + content_block list"
  pulls_update :: "PRDetails \<Rightarrow> json option \<Rightarrow> thrown + unit"

text \<open>
  A computation emits events and then returns a value, throws, or ends the process with
  \<open>process.exit\<close>.
\<close>

datatype stop = Throw thrown | Exit nat

type_synonym 'a io = "event list \<times> (stop + 'a)"

definition io_return :: "'a \<Rightarrow> 'a io" where
  "io_return x = ([], Inr x)"

definition io_bind :: "'a io \<Rightarrow> ('a \<Rightarrow> 'b io) \<Rightarrow> 'b io" where
  "io_bind m f =
     (case m of
        (evs, Inl st) \<Rightarrow> (evs, Inl st)
      | (evs, Inr x) \<Rightarrow> (case f x of (evs', r) \<Rightarrow> (evs @ evs', r)))"

definition io_then :: "unit io \<Rightarrow> 'b io \<Rightarrow> 'b io" where
  "io_then m k = io_bind m (\<lambda>_. k)"

definition lift :: "thrown + 'a \<Rightarrow> 'a io" where
  "lift r = (case r of Inl e \<Rightarrow> ([], Inl (Throw e)) | Inr x \<Rightarrow> ([], Inr x))"

definition call :: "request \<Rightarrow> thrown + 'a \<Rightarrow> 'a io" where
  "call rq answer = (case answer of Inl e \<Rightarrow> ([Request rq], Inl (Throw e))
                                  | Inr x \<Rightarrow> ([Request rq], Inr x))"

definition logs :: "piece list list \<Rightarrow> unit io" where
  "logs ls = (map Stdout ls, Inr ())"

definition process_exit :: "nat \<Rightarrow> 'a io" where
  "process_exit n = ([], Inl (Exit n))"

definition fetchPRChanges :: "world \<Rightarrow> PRDetails \<Rightarrow> (PRData \<times> FileChange list) io" where
  "fetchPRChanges w details =
     io_bind (call (PullsGet details) (pulls_get w details)) (\<lambda>pr.
     io_bind (call (PullsListFiles details) (pulls_listFiles w details)) (\<lambda>files.
     io_return (pr, files)))"

definition fetchCompareChanges :: "world \<Rightarrow> CompareDetails \<Rightarrow> (FileChange list option) io" where
  "fetchCompareChanges w details =
     call (CompareCommits (c_owner details) (c_repo details) (base details @ ''...'' @ head details))
       (compareCommitsWithBasehead w (c_owner details) (c_repo details)
          (base details @ ''...'' @ head details))"

definition generateTitleAndDescription ::
    "world \<Rightarrow> FileChange list \<Rightarrow> prompt_context option \<Rightarrow> json io" where
  "generateTitleAndDescription w files ctx =
     io_bind (call (MessagesCreate ''claude-haiku-4-20250514'' 2048 (build_prompt files ctx))
                (messages_create w (build_prompt files ctx))) (\<lambda>content.
     lift (parse_reply content))"

definition updatePRDescription :: "world \<Rightarrow> PRDetails \<Rightarrow> json option \<Rightarrow> unit io" where
  "updatePRDescription w details description =
     call (PullsUpdate details description) (pulls_update w details description)"

definition usage :: string where
  "usage = join nl
     ['''',
      ''Usage: prd <GITHUB_URL>'',
      '''',
      ''Supports two types of URLs:'',
      ''  1. Pull Request URL: https://github.com/owner/repo/pull/123'',
      ''  2. Compare URL: https://github.com/owner/repo/compare/base...head'',
      '''',
      ''Environment variables required:'',
      ''  GITHUB_PRD_TOKEN      - GitHub personal access token'',
      ''  ANTHROPIC_API_KEY - Anthropic API key'',
      '''',
      ''Examples:'',
      ''  export GITHUB_PRD_TOKEN='' @ dq @ ''ghp_...'' @ dq,
      ''  export ANTHROPIC_API_KEY='' @ dq @ ''sk-ant-...'' @ dq,
      '''',
      ''  # Update existing PR'',
      ''  prd https://github.com/owner/repo/pull/123'',
      '''',
      ''  # Generate title and description from compare link'',
      ''  prd https://github.com/owner/repo/compare/main...feature-branch'',
      ''    '']"

definition rule_line :: "piece list" where
  "rule_line = replicate 80 (U 0x2500)"

definition pr_workflow :: "world \<Rightarrow> PRDetails \<Rightarrow> unit io" where
  "pr_workflow w prDetails =
     io_then (logs [[S ''   Type: Pull Request''],
                    [S ''   Owner: '', S (owner prDetails)],
                    [S ''   Repo: '', S (repo prDetails)],
                    [S ''   PR #: '', N (pull_number prDetails)],
                    [S nl, U 0x1F4E5, S '' Fetching PR changes...'']])
    (io_bind (fetchPRChanges w prDetails) (\<lambda>(pr, files).
     io_then (logs [[S ''   Found '', N (int (length files)), S '' changed files''],
                    [S nl, U 0x1F916, S '' Generating title and description with Claude...'']])
    (io_bind (generateTitleAndDescription w files
                (Some \<lparr>currentTitle = Some (pr_title pr), currentBody = pr_body pr,
                        ctx_base = None, ctx_head = None\<rparr>)) (\<lambda>generated.
     io_then (logs [[S nl, U 0x1F4DD, S '' Generated Content:''],
                    rule_line,
                    [S ''Title: '', V (get_prop generated ''title'')],
                    [S nl, S ''Description:''],
                    [V (get_prop generated ''description'')],
                    rule_line,
                    [S nl, U 0x1F4A1, S '' Suggested title:''],
                    [S ''   '', V (get_prop generated ''title'')],
                    [S ''   Current title: '', S (pr_title pr)],
                    [S nl, U 0x270D, U 0xFE0F, S ''  Updating PR description...'']])
    (io_then (updatePRDescription w prDetails (get_prop generated ''description''))
             (logs [[U 0x2705, S '' Successfully updated PR description!''],
                    [S ''   View at: '', S (html_url pr)],
                    [S nl, U 0x1F4AD,
                     S ('' Note: Title was not automatically updated. ''
                        @ ''You can update it manually if desired.'')]]))))))"

definition compare_workflow :: "world \<Rightarrow> CompareDetails \<Rightarrow> unit io" where
  "compare_workflow w compareDetails =
     io_then (logs [[S ''   Type: Compare''],
                    [S ''   Owner: '', S (c_owner compareDetails)],
                    [S ''   Repo: '', S (c_repo compareDetails)],
                    [S ''   Comparing: '', S (base compareDetails), S ''...'',
                     S (head compareDetails)],
                    [S nl, U 0x1F4E5, S '' Fetching comparison changes...'']])
    (io_bind (fetchCompareChanges w compareDetails) (\<lambda>files.
     io_then (logs [[S ''   Found '',
                     N (case files of None \<Rightarrow> 0 | Some fs \<Rightarrow> int (length fs)),
                     S '' changed files'']])
    (case files of
       None \<Rightarrow>
         io_then (logs [[S nl, U 0x26A0, U 0xFE0F,
                         S ''  No file changes found in this comparison.'']])
                 (process_exit 0)
     | Some fs \<Rightarrow>
         if fs = [] then
           io_then (logs [[S nl, U 0x26A0, U 0xFE0F,
                           S ''  No file changes found in this comparison.'']])
                   (process_exit 0)
         else
           io_then (logs [[S nl, U 0x1F916,
                           S '' Generating title and description with Claude...'']])
          (io_bind (generateTitleAndDescription w fs
                      (Some \<lparr>currentTitle = None, currentBody = None,
                              ctx_base = Some (base compareDetails),
                              ctx_head = Some (head compareDetails)\<rparr>)) (\<lambda>generated.
           logs [[S nl, U 0x1F4DD, S '' Generated PR Content:''],
                 rule_line,
                 [S ''Title:'', S nl, V (get_prop generated ''title'')],
                 [S nl, S ''Description:''],
                 [V (get_prop generated ''description'')],
                 rule_line,
                 [S nl, U 0x2705, S '' Generated title and description!''],
                 [S nl, U 0x1F4A1, S '' Use these when creating your PR:''],
                 [S ''   Compare URL: https://github.com/'', S (c_owner compareDetails),
                  S ''/'', S (c_repo compareDetails), S ''/compare/'',
                  S (base compareDetails), S ''...'', S (head compareDetails)]])))))"

text \<open>The body of the \<open>try\<close> block.\<close>

definition try_block :: "world \<Rightarrow> string \<Rightarrow> unit io" where
  "try_block w githubUrl =
     io_then (logs [[U 0x1F50D, S '' Parsing GitHub URL...'']])
    (io_bind (lift (parseGitHubUrl githubUrl)) (\<lambda>urlDetails.
     case urlDetails of
       Pr prDetails \<Rightarrow> pr_workflow w prDetails
     | Compare compareDetails \<Rightarrow> compare_workflow w compareDetails))"

text \<open>
  The \<open>catch\<close> block, and the end of the process: exit code 0 when \<open>main\<close> returns, the
  argument of \<open>process.exit\<close> otherwise.
\<close>

definition catch_line :: "thrown \<Rightarrow> piece list" where
  "catch_line e =
     (case e of
        Error m \<Rightarrow> [S nl, U 0x274C, S '' Error: '', S m]
      | SyntaxError \<Rightarrow> [S nl, U 0x274C, S '' Error: '', SyntaxErrorMessage]
      | NonError \<Rightarrow> [S nl, U 0x274C, S '' An unknown error occurred''])"

definition finish :: "unit io \<Rightarrow> event list \<times> nat" where
  "finish m =
     (case m of
        (evs, Inr u) \<Rightarrow> (evs, 0)
      | (evs, Inl (Exit n)) \<Rightarrow> (evs, n)
      | (evs, Inl (Throw e)) \<Rightarrow> (evs @ [Stderr (catch_line e)], 1))"

definition main :: "world \<Rightarrow> event list \<times> nat" where
  "main w =
     (case argv w of
        [] \<Rightarrow> ([Stdout [S usage]], 0)
      | githubUrl # rest \<Rightarrow>
          if ''--help'' \<in> set (argv w) \<or> ''-h'' \<in> set (argv w)
          then ([Stdout [S usage]], 0)
          else if falsy (GITHUB_PRD_TOKEN w)
          then ([Stderr [S ''Error: GITHUB_PRD_TOKEN environment variable is required'']], 1)
          else if falsy (ANTHROPIC_API_KEY w)
          then ([Stderr [S ''Error: ANTHROPIC_API_KEY environment variable is required'']], 1)
          else if githubUrl = []
          then ([Stderr [S ''Error: GitHub URL is required'']], 1)
          else finish (try_block w githubUrl))"

subsection \<open>Example worlds\<close>

text \<open>
  A world whose remote services fail on every request, and a world in which they answer:
  the pull request "Add login", the given files and the given reply of the model.
\<close>

definition silent_world :: "string list \<Rightarrow> string option \<Rightarrow> string option \<Rightarrow> world" where
  "silent_world args token key =
     \<lparr>argv = args, GITHUB_PRD_TOKEN = token, ANTHROPIC_API_KEY = key,
      pulls_get = (\<lambda>d. Inl NonError),
      pulls_listFiles = (\<lambda>d. Inl NonError),
      compareCommitsWithBasehead = (\<lambda>ow rp bh. Inl NonError),
      messages_create = (\<lambda>p. Inl NonError),
      pulls_update = (\<lambda>d b. Inl NonError)\<rparr>"

definition example_world ::
    "string \<Rightarrow> FileChange list \<Rightarrow> content_block list \<Rightarrow> world" where
  "example_world url files reply =
     \<lparr>argv = [url], GITHUB_PRD_TOKEN = Some ''ghp_x'', ANTHROPIC_API_KEY = Some ''sk-ant-x'',
      pulls_get = (\<lambda>d. Inr \<lparr>pr_title = ''Add login'', pr_body = None,
                              html_url = ''https://github.com/acme/widgets/pull/42''\<rparr>),
      pulls_listFiles = (\<lambda>d. Inr files),
      compareCommitsWithBasehead = (\<lambda>ow rp bh. Inr (Some files)),
      messages_create = (\<lambda>p. Inr reply),
      pulls_update = (\<lambda>d b. Inr ())\<rparr>"

section \<open>Properties of the matcher\<close>

lemma first_some_all_None: "(\<And>x. x \<in> set xs \<Longrightarrow> f x = None) \<Longrightarrow> first_some f xs = None"
  by (induction xs) auto

lemma greedy_lens_Suc0:
  "greedy_lens p (Suc 0) s =
     (if takeWhile p s = [] then [] else length (takeWhile p s) # rev [Suc 0 ..< length (takeWhile p s)])"
proof (cases "takeWhile p s = []")
  case True
  then show ?thesis by (simp add: greedy_lens_def)
next
  case False
  then have "Suc 0 \<le> length (takeWhile p s)" by (cases "takeWhile p s") auto
  then show ?thesis using False by (simp add: greedy_lens_def)
qed

lemma first_some_Cons_None:
  "(\<And>y. y \<in> set xs \<Longrightarrow> f y = None) \<Longrightarrow> first_some f (x # xs) = f x"
  using first_some_all_None[of xs f] by (cases "f x") auto

lemma drop_in_takeWhile:
  assumes "k < length (takeWhile p s)"
  shows "\<exists>x xs. drop k s = x # xs \<and> p x"
proof -
  have k: "k < length s" using assms length_takeWhile_le[of p s] by (meson less_le_trans)
  have "p (s ! k)" using assms
    by (metis nth_mem set_takeWhileD takeWhile_nth)
  moreover have "drop k s = s ! k # drop (Suc k) s" using k by (simp add: Cons_nth_drop_Suc)
  ultimately show ?thesis by blast
qed

lemma drop_length_takeWhile: "drop (length (takeWhile p s)) s = dropWhile p s"
  by (metis append_eq_conv_conj takeWhile_dropWhile_id)

lemma take_length_takeWhile: "take (length (takeWhile p s)) s = takeWhile p s"
  by (metis append_eq_conv_conj takeWhile_dropWhile_id)

lemma rx_match_lits:
  "rx_match (map Lit w @ r) s =
     (if take (length w) s = w then rx_match r (drop (length w) s) else None)"
proof (induction w arbitrary: s)
  case Nil
  then show ?case by simp
next
  case (Cons c w)
  show ?case
  proof (cases s)
    case Nil
    then show ?thesis by simp
  next
    case (Cons x xs)
    then show ?thesis using Cons.IH[of xs] by auto
  qed
qed

lemma rx_match_Grp_Lit:
  assumes "\<not> p c"
  shows "rx_match (Grp p (Suc 0) # Lit c # r) s =
     (if takeWhile p s = [] then None
      else case rx_match (Lit c # r) (dropWhile p s) of
             None \<Rightarrow> None
           | Some (caps, rest) \<Rightarrow> Some (takeWhile p s # caps, rest))"
proof (cases "takeWhile p s = []")
  case True
  then show ?thesis by (simp add: greedy_lens_Suc0)
next
  case False
  let ?n = "length (takeWhile p s)"
  let ?f = "\<lambda>k. case rx_match (Lit c # r) (drop k s) of
              None \<Rightarrow> None
            | Some (caps, rest) \<Rightarrow> Some (take k s # caps, rest)"
  have small: "?f k = None" if "k \<in> set (rev [Suc 0 ..< ?n])" for k
  proof -
    from that have "k < ?n" by simp
    then obtain x xs where "drop k s = x # xs" "p x" using drop_in_takeWhile by blast
    with assms show ?thesis by auto
  qed
  have "rx_match (Grp p (Suc 0) # Lit c # r) s = first_some ?f (?n # rev [Suc 0 ..< ?n])"
    using False by (simp add: greedy_lens_Suc0)
  also have "\<dots> = ?f ?n"
    by (rule first_some_Cons_None) (rule small)
  finally have "rx_match (Grp p (Suc 0) # Lit c # r) s = ?f ?n" .
  then show ?thesis using False
    by (simp only: drop_length_takeWhile take_length_takeWhile if_False)
qed

lemma rx_match_Grp_end:
  "rx_match [Grp p (Suc 0)] s =
     (if takeWhile p s = [] then None else Some ([takeWhile p s], dropWhile p s))"
  by (simp add: greedy_lens_Suc0 drop_length_takeWhile take_length_takeWhile)

lemma takeWhile_dropWhile_iff:
  "(takeWhile p s = a \<and> dropWhile p s = b) \<longleftrightarrow>
   (s = a @ b \<and> (\<forall>x\<in>set a. p x) \<and> (b = [] \<or> \<not> p (hd b)))"
proof
  assume h: "takeWhile p s = a \<and> dropWhile p s = b"
  then have "s = a @ b" by (metis takeWhile_dropWhile_id)
  moreover have "\<forall>x\<in>set a. p x" using h by (auto dest: set_takeWhileD)
  moreover have "b = [] \<or> \<not> p (hd b)" using h by (metis hd_dropWhile)
  ultimately show "s = a @ b \<and> (\<forall>x\<in>set a. p x) \<and> (b = [] \<or> \<not> p (hd b))" by blast
next
  assume h: "s = a @ b \<and> (\<forall>x\<in>set a. p x) \<and> (b = [] \<or> \<not> p (hd b))"
  then have "takeWhile p s = a @ takeWhile p b" "dropWhile p s = dropWhile p b"
    by (simp_all add: takeWhile_append2 dropWhile_append2)
  moreover have "takeWhile p b = []" "dropWhile p b = b" using h by (cases b; auto)+
  ultimately show "takeWhile p s = a \<and> dropWhile p s = b" by simp
qed

lemma rx_match_lits_iff:
  "rx_match (map Lit w @ r) s = Some res \<longleftrightarrow> (\<exists>t. s = w @ t \<and> rx_match r t = Some res)"
proof -
  have "take (length w) s = w \<longleftrightarrow> (\<exists>t. s = w @ t)"
    by (metis append_eq_conv_conj append_take_drop_id)
  then show ?thesis by (auto simp: rx_match_lits)
qed

lemma rx_match_Grp_Lit_iff:
  assumes "\<not> p c"
  shows "rx_match (Grp p (Suc 0) # Lit c # r) s = Some (caps, rest) \<longleftrightarrow>
     (\<exists>a t caps'. s = a @ c # t \<and> a \<noteq> [] \<and> (\<forall>x\<in>set a. p x)
        \<and> rx_match r t = Some (caps', rest) \<and> caps = a # caps')"
  (is "?L \<longleftrightarrow> ?R")
proof
  assume ?L
  then have ne: "takeWhile p s \<noteq> []"
    and m: "(case rx_match (Lit c # r) (dropWhile p s) of None \<Rightarrow> None
             | Some (caps, rest) \<Rightarrow> Some (takeWhile p s # caps, rest)) = Some (caps, rest)"
    by (auto simp: rx_match_Grp_Lit[of p c, OF assms] simp del: rx_match.simps split: if_splits)
  from m obtain caps' where m': "rx_match (Lit c # r) (dropWhile p s) = Some (caps', rest)"
    and caps: "caps = takeWhile p s # caps'"
    by (auto split: option.splits)
  from m' obtain t where t: "dropWhile p s = c # t" and r: "rx_match r t = Some (caps', rest)"
    by (auto split: list.splits if_splits)
  have "s = takeWhile p s @ c # t" using t by (metis takeWhile_dropWhile_id)
  moreover have "\<forall>x\<in>set (takeWhile p s). p x" by (auto dest: set_takeWhileD)
  ultimately show ?R using ne r caps by blast
next
  assume ?R
  then obtain a t caps' where s: "s = a @ c # t" and a: "a \<noteq> []" "\<forall>x\<in>set a. p x"
    and r: "rx_match r t = Some (caps', rest)" and caps: "caps = a # caps'" by blast
  have "takeWhile p s = a \<and> dropWhile p s = c # t"
    using s a assms by (simp add: takeWhile_dropWhile_iff)
  then show ?L using a r caps by (simp add: rx_match_Grp_Lit[of p c, OF assms] del: rx_match.simps(4))
qed

lemma rx_match_Grp_end_iff:
  "rx_match [Grp p (Suc 0)] s = Some (caps, rest) \<longleftrightarrow>
     (\<exists>d. s = d @ rest \<and> d \<noteq> [] \<and> (\<forall>x\<in>set d. p x) \<and> (rest = [] \<or> \<not> p (hd rest))
        \<and> caps = [d])"
  (is "?L \<longleftrightarrow> ?R")
proof
  assume ?L
  then have ne: "takeWhile p s \<noteq> []" and c: "caps = [takeWhile p s]" and r: "rest = dropWhile p s"
    by (auto simp: rx_match_Grp_end simp del: rx_match.simps split: if_splits)
  have "s = takeWhile p s @ rest \<and> (\<forall>x\<in>set (takeWhile p s). p x) \<and> (rest = [] \<or> \<not> p (hd rest))"
    using takeWhile_dropWhile_iff[of p s "takeWhile p s" rest] r by blast
  then show ?R using ne c by blast
next
  assume ?R
  then obtain d where d: "s = d @ rest" "d \<noteq> []" "\<forall>x\<in>set d. p x" "rest = [] \<or> \<not> p (hd rest)"
    "caps = [d]" by blast
  then have "takeWhile p s = d \<and> dropWhile p s = rest" by (simp add: takeWhile_dropWhile_iff)
  then show ?L using d by (simp add: rx_match_Grp_end del: rx_match.simps)
qed

text \<open>Both URL patterns have the same shape.\<close>

lemma url_pattern_iff:
  "rx_match (map Lit ''github.com/'' @ [Grp not_slash 1, Lit CHR ''/'', Grp not_slash 1]
             @ map Lit (CHR ''/'' # w) @ [Grp q 1]) s = Some (caps, rest) \<longleftrightarrow>
   (\<exists>ow rp d. s = ''github.com/'' @ ow @ ''/'' @ rp @ (CHR ''/'' # w) @ d @ rest
      \<and> ow \<noteq> [] \<and> CHR ''/'' \<notin> set ow \<and> rp \<noteq> [] \<and> CHR ''/'' \<notin> set rp
      \<and> d \<noteq> [] \<and> (\<forall>x\<in>set d. q x) \<and> (rest = [] \<or> \<not> q (hd rest))
      \<and> caps = [ow, rp, d])"
  (is "?L \<longleftrightarrow> ?R")
proof -
  have ns: "\<not> not_slash CHR ''/''" by (simp add: not_slash_def)
  have all: "(\<forall>x\<in>set a. not_slash x) \<longleftrightarrow> CHR ''/'' \<notin> set a" for a
    by (auto simp: not_slash_def)
  have "?L \<longleftrightarrow> (\<exists>t. s = ''github.com/'' @ t \<and>
      rx_match (Grp not_slash (Suc 0) # Lit CHR ''/'' #
         Grp not_slash (Suc 0) # Lit CHR ''/'' # map Lit w @ [Grp q (Suc 0)]) t = Some (caps, rest))"
    using rx_match_lits_iff[of "''github.com/''" _ s "(caps, rest)"] by simp
  also have "\<dots> \<longleftrightarrow> ?R"
    unfolding rx_match_Grp_Lit_iff[of not_slash "CHR ''/''", OF ns] rx_match_lits_iff
      rx_match_Grp_end_iff all
    by auto
  finally show ?thesis .
qed

lemma first_some_SomeD: "first_some f xs = Some y \<Longrightarrow> \<exists>x\<in>set xs. f x = Some y"
  by (induction xs) (auto split: option.splits)

lemma rx_match_rest: "rx_match r s = Some (caps, rest) \<Longrightarrow> \<exists>w. s = w @ rest"
proof (induction r s arbitrary: caps rest rule: rx_match.induct)
  case (1 s)
  then show ?case by simp
next
  case (2 c r s)
  then obtain xs where s: "s = c # xs" and m: "rx_match r xs = Some (caps, rest)"
    by (auto split: list.splits if_splits)
  from "2.IH"[OF s _ m] s obtain w where "xs = w @ rest" by auto
  then show ?case using s by (metis append_Cons)
next
  case (3 p n r s)
  from first_some_SomeD[OF "3.prems"[simplified]] obtain k
    where m: "rx_match r (drop k s) = Some (caps, rest)" by auto
  from "3.IH"[OF m] obtain w where "drop k s = w @ rest" by blast
  then have "s = (take k s @ w) @ rest" by (metis append_assoc append_take_drop_id)
  then show ?case by blast
next
  case (4 p n r s)
  from first_some_SomeD[OF "4.prems"[simplified]] obtain k caps'
    where m: "rx_match r (drop k s) = Some (caps', rest)" by (auto split: option.splits)
  from "4.IH"[OF m] obtain w where "drop k s = w @ rest" by blast
  then have "s = (take k s @ w) @ rest" by (metis append_assoc append_take_drop_id)
  then show ?case by blast
qed

lemma js_match_hit:
  "rx_match r s = Some (caps, rest) \<Longrightarrow> js_match r s = Some (take (length s - length rest) s, caps)"
  by (cases s) auto

lemma js_match_SomeD:
  "js_match r s = Some (w, caps) \<Longrightarrow>
     \<exists>pre rest. s = pre @ w @ rest \<and> rx_match r (w @ rest) = Some (caps, rest)"
proof (induction s)
  case Nil
  then obtain rest where m: "rx_match r [] = Some (caps, rest)" and w: "w = []"
    by (auto split: option.splits)
  from rx_match_rest[OF m] have "rest = []" by simp
  with m w show ?case by simp
next
  case (Cons x xs)
  show ?case
  proof (cases "rx_match r (x # xs)")
    case None
    with Cons.prems have "js_match r xs = Some (w, caps)" by simp
    from Cons.IH[OF this] obtain pre rest where "xs = pre @ w @ rest"
      "rx_match r (w @ rest) = Some (caps, rest)" by blast
    then have "x # xs = (x # pre) @ w @ rest \<and> rx_match r (w @ rest) = Some (caps, rest)" by simp
    then show ?thesis by blast
  next
    case (Some a)
    obtain caps' rest where a: "a = (caps', rest)" by (cases a)
    with Some Cons.prems have w: "w = take (length (x # xs) - length rest) (x # xs)"
      and c: "caps = caps'" by auto
    from rx_match_rest Some a obtain w' where w': "x # xs = w' @ rest" by blast
    then have "w = w'" using w by simp
    then have "x # xs = [] @ w @ rest \<and> rx_match r (w @ rest) = Some (caps, rest)"
      using w' Some a c by simp
    then show ?thesis by blast
  qed
qed

lemma js_match_NoneI:
  "(\<And>i. i \<le> length s \<Longrightarrow> rx_match r (drop i s) = None) \<Longrightarrow> js_match r s = None"
proof (induction s)
  case Nil
  from Nil[of 0] show ?case by simp
next
  case (Cons x xs)
  have "rx_match r (x # xs) = None" using Cons.prems[of 0] by simp
  moreover have "js_match r xs = None"
  proof (rule Cons.IH)
    fix i assume "i \<le> length xs"
    then show "rx_match r (drop i xs) = None" using Cons.prems[of "Suc i"] by simp
  qed
  ultimately show ?case by simp
qed

lemma js_match_NoneD:
  "js_match r s = None \<Longrightarrow> i \<le> length s \<Longrightarrow> rx_match r (drop i s) = None"
proof (induction s arbitrary: i)
  case Nil
  then show ?case by (simp add: js_match.simps split: option.splits prod.splits)
next
  case (Cons x xs)
  from Cons.prems(1) have 0: "rx_match r (x # xs) = None" and t: "js_match r xs = None"
    by (auto simp: js_match.simps split: option.splits)
  show ?case
  proof (cases i)
    case 0
    then show ?thesis using \<open>rx_match r (x # xs) = None\<close> by simp
  next
    case (Suc j)
    then show ?thesis using Cons.IH[OF t, of j] Cons.prems(2) by simp
  qed
qed

lemma js_match_skip: "rx_match r (x # xs) = None \<Longrightarrow> js_match r (x # xs) = js_match r xs"
  by simp

declare js_match.simps [simp del]

section \<open>Properties of \<open>split\<close> and \<open>parseInt\<close>\<close>












lemma is_digit_not_space: "is_digit c \<Longrightarrow> \<not> is_js_space c"
  by (auto simp: is_digit_def is_js_space_def)

lemma is_digit_not_sign: "is_digit c \<Longrightarrow> c \<noteq> CHR ''-'' \<and> c \<noteq> CHR ''+''"
  by (auto simp: is_digit_def)

lemma parseInt_digits:
  assumes "ds \<noteq> []" and "\<forall>c\<in>set ds. is_digit c"
  shows "parseInt ds = Some (digits_val ds)"
proof -
  obtain c cs where ds: "ds = c # cs" using assms(1) by (cases ds) auto
  have c: "is_digit c" using assms(2) ds by simp
  have "dropWhile is_js_space ds = ds" using ds is_digit_not_space[OF c] by simp
  moreover have "takeWhile is_digit ds = ds" using assms(2) by (simp add: takeWhile_eq_all_conv)
  ultimately show ?thesis using ds is_digit_not_sign[OF c] assms(1)
    by (simp add: parseInt_def)
qed

section \<open>Properties of the URL patterns\<close>

lemma pr_match_iff:
  "rx_match prRegex s = Some (caps, rest) \<longleftrightarrow>
   (\<exists>ow rp d. s = ''github.com/'' @ ow @ ''/'' @ rp @ ''/pull/'' @ d @ rest
      \<and> ow \<noteq> [] \<and> CHR ''/'' \<notin> set ow \<and> rp \<noteq> [] \<and> CHR ''/'' \<notin> set rp
      \<and> d \<noteq> [] \<and> (\<forall>x\<in>set d. is_digit x) \<and> (rest = [] \<or> \<not> is_digit (hd rest))
      \<and> caps = [ow, rp, d])"
  using url_pattern_iff[of "''pull/''" is_digit s caps rest] by (simp add: prRegex_def)

lemma compare_match_iff:
  "rx_match compareRegex s = Some (caps, rest) \<longleftrightarrow>
   (\<exists>ow rp d. s = ''github.com/'' @ ow @ ''/'' @ rp @ ''/compare/'' @ d @ rest
      \<and> ow \<noteq> [] \<and> CHR ''/'' \<notin> set ow \<and> rp \<noteq> [] \<and> CHR ''/'' \<notin> set rp
      \<and> d \<noteq> [] \<and> (\<forall>x\<in>set d. not_query_hash x) \<and> (rest = [] \<or> \<not> not_query_hash (hd rest))
      \<and> caps = [ow, rp, d])"
  using url_pattern_iff[of "''compare/''" not_query_hash s caps rest] by (simp add: compareRegex_def)

lemma pr_first_char: "x \<noteq> CHR ''g'' \<Longrightarrow> rx_match prRegex (x # xs) = None"
  by (simp add: prRegex_def)

lemma compare_first_char: "x \<noteq> CHR ''g'' \<Longrightarrow> rx_match compareRegex (x # xs) = None"
  by (simp add: compareRegex_def)

lemma js_match_pr_https: "js_match prRegex (''https://'' @ t) = js_match prRegex t"
  by (simp add: pr_first_char js_match.simps)

lemma js_match_compare_https: "js_match compareRegex (''https://'' @ t) = js_match compareRegex t"
  by (simp add: compare_first_char js_match.simps)

lemma js_match_pr_host:
  "rx_match prRegex (''github.com/'' @ t) = None \<Longrightarrow>
     js_match prRegex (''github.com/'' @ t) = js_match prRegex t"
  by (simp add: pr_first_char js_match.simps)

lemma js_match_compare_host:
  "rx_match compareRegex (''github.com/'' @ t) = None \<Longrightarrow>
     js_match compareRegex (''github.com/'' @ t) = js_match compareRegex t"
  by (simp add: compare_first_char js_match.simps)

lemma segment_unique:
  assumes "a @ c # x = b @ c # y" and "c \<notin> set a" and "c \<notin> set b"
  shows "a = b \<and> x = y"
  using assms
proof (induction a arbitrary: b)
  case Nil
  then show ?case by (cases b) auto
next
  case (Cons z a)
  then show ?case by (cases b) auto
qed

lemma slashes_append: "slashes (a @ b) = slashes a + slashes b"
  by (simp add: slashes_def)

lemma slashes_Cons: "slashes (x # xs) = (if x = CHR ''/'' then 1 else 0) + slashes xs"
  by (simp add: slashes_def)

lemma slashes_Nil: "slashes [] = 0"
  by (simp add: slashes_def)

lemma slashes_free: "CHR ''/'' \<notin> set a \<Longrightarrow> slashes a = 0"
  by (induction a) (auto simp: slashes_def)

lemma slashes_drop: "slashes (drop i s) \<le> slashes s"
proof -
  have "slashes s = slashes (take i s) + slashes (drop i s)"
    by (metis append_take_drop_id slashes_append)
  then show ?thesis by simp
qed

lemma pr_match_slashes: "rx_match prRegex s = Some res \<Longrightarrow> 4 \<le> slashes s"
  by (cases res) (auto simp: pr_match_iff slashes_append slashes_Cons)

lemma compare_match_slashes: "rx_match compareRegex s = Some res \<Longrightarrow> 4 \<le> slashes s"
  by (cases res) (auto simp: compare_match_iff slashes_append slashes_Cons)

lemma js_match_pr_few_slashes: "slashes s < 4 \<Longrightarrow> js_match prRegex s = None"
proof (rule js_match_NoneI)
  fix i assume "slashes s < 4"
  then have "slashes (drop i s) < 4" using slashes_drop[of i s] by simp
  then show "rx_match prRegex (drop i s) = None"
    using pr_match_slashes[of "drop i s"] by (cases "rx_match prRegex (drop i s)") auto
qed

lemma js_match_compare_few_slashes: "slashes s < 4 \<Longrightarrow> js_match compareRegex s = None"
proof (rule js_match_NoneI)
  fix i assume "slashes s < 4"
  then have "slashes (drop i s) < 4" using slashes_drop[of i s] by simp
  then show "rx_match compareRegex (drop i s) = None"
    using compare_match_slashes[of "drop i s"] by (cases "rx_match compareRegex (drop i s)") auto
qed

lemma js_match_hit_append:
  "rx_match r (w @ x) = Some (caps, x) \<Longrightarrow> js_match r (w @ x) = Some (w, caps)"
  using js_match_hit[of r "w @ x" caps x] by simp

lemma pr_url_match:
  assumes "ow \<noteq> []" "CHR ''/'' \<notin> set ow" "rp \<noteq> []" "CHR ''/'' \<notin> set rp"
    and "d \<noteq> []" "\<forall>c\<in>set d. is_digit c" "x = [] \<or> \<not> is_digit (hd x)"
  shows "js_match prRegex (''https://github.com/'' @ ow @ ''/'' @ rp @ ''/pull/'' @ d @ x)
           = Some (''github.com/'' @ ow @ ''/'' @ rp @ ''/pull/'' @ d, [ow, rp, d])"
proof -
  let ?w = "''github.com/'' @ ow @ ''/'' @ rp @ ''/pull/'' @ d"
  have "rx_match prRegex (?w @ x) = Some ([ow, rp, d], x)"
    unfolding pr_match_iff using assms by auto
  then have "js_match prRegex (?w @ x) = Some (?w, [ow, rp, d])"
    by (rule js_match_hit_append)
  moreover have "js_match prRegex (''https://'' @ ?w @ x) = js_match prRegex (?w @ x)"
    by (rule js_match_pr_https)
  ultimately show ?thesis by simp
qed

lemma pr_url_no_number:
  assumes "CHR ''/'' \<notin> set ow" "CHR ''/'' \<notin> set rp"
    and "n = [] \<or> \<not> is_digit (hd n)" "CHR ''/'' \<notin> set n"
  shows "js_match prRegex (''https://github.com/'' @ ow @ ''/'' @ rp @ ''/pull/'' @ n) = None"
proof -
  let ?t = "ow @ ''/'' @ rp @ ''/pull/'' @ n"
  have at_host: "rx_match prRegex (''github.com/'' @ ?t) = None"
  proof (rule ccontr)
    assume "rx_match prRegex (''github.com/'' @ ?t) \<noteq> None"
    then obtain caps rest where "rx_match prRegex (''github.com/'' @ ?t) = Some (caps, rest)"
      by auto
    then obtain ow' rp' d where
      eq: "''github.com/'' @ ?t = ''github.com/'' @ ow' @ ''/'' @ rp' @ ''/pull/'' @ d @ rest"
      and s: "CHR ''/'' \<notin> set ow'" "CHR ''/'' \<notin> set rp'"
      and d: "d \<noteq> []" "\<forall>x\<in>set d. is_digit x"
      unfolding pr_match_iff by blast
    from eq have "ow @ CHR ''/'' # (rp @ ''/pull/'' @ n) = ow' @ CHR ''/'' # (rp' @ ''/pull/'' @ d @ rest)"
      by simp
    from segment_unique[OF this assms(1) s(1)]
    have "rp @ CHR ''/'' # (''pull/'' @ n) = rp' @ CHR ''/'' # (''pull/'' @ d @ rest)" by simp
    from segment_unique[OF this assms(2) s(2)] have "n = d @ rest" by simp
    with d assms(3) show False by (cases d) auto
  qed
  have "slashes ?t < 4" using assms
    by (simp add: slashes_append slashes_Cons slashes_free slashes_Nil)
  then have "js_match prRegex ?t = None" by (rule js_match_pr_few_slashes)
  with js_match_pr_host[OF at_host] have "js_match prRegex (''github.com/'' @ ?t) = None"
    by simp
  moreover have "js_match prRegex (''https://'' @ ''github.com/'' @ ?t)
                   = js_match prRegex (''github.com/'' @ ?t)"
    by (rule js_match_pr_https)
  ultimately show ?thesis by simp
qed

lemma pr_url_not_compare:
  assumes "CHR ''/'' \<notin> set ow" "CHR ''/'' \<notin> set rp" "CHR ''/'' \<notin> set n"
  shows "js_match compareRegex (''https://github.com/'' @ ow @ ''/'' @ rp @ ''/pull/'' @ n) = None"
proof -
  let ?t = "ow @ ''/'' @ rp @ ''/pull/'' @ n"
  have at_host: "rx_match compareRegex (''github.com/'' @ ?t) = None"
  proof (rule ccontr)
    assume "rx_match compareRegex (''github.com/'' @ ?t) \<noteq> None"
    then obtain caps rest where "rx_match compareRegex (''github.com/'' @ ?t) = Some (caps, rest)"
      by auto
    then obtain ow' rp' d where
      eq: "''github.com/'' @ ?t = ''github.com/'' @ ow' @ ''/'' @ rp' @ ''/compare/'' @ d @ rest"
      and s: "CHR ''/'' \<notin> set ow'" "CHR ''/'' \<notin> set rp'"
      unfolding compare_match_iff by blast
    from eq have "ow @ CHR ''/'' # (rp @ ''/pull/'' @ n) = ow' @ CHR ''/'' # (rp' @ ''/compare/'' @ d @ rest)"
      by simp
    from segment_unique[OF this assms(1) s(1)]
    have "rp @ CHR ''/'' # (''pull/'' @ n) = rp' @ CHR ''/'' # (''compare/'' @ d @ rest)" by simp
    from segment_unique[OF this assms(2) s(2)] show False by simp
  qed
  have "slashes ?t < 4" using assms
    by (simp add: slashes_append slashes_Cons slashes_free slashes_Nil)
  then have "js_match compareRegex ?t = None" by (rule js_match_compare_few_slashes)
  with js_match_compare_host[OF at_host] have "js_match compareRegex (''github.com/'' @ ?t) = None"
    by simp
  moreover have "js_match compareRegex (''https://'' @ ''github.com/'' @ ?t)
                   = js_match compareRegex (''github.com/'' @ ?t)"
    by (rule js_match_compare_https)
  ultimately show ?thesis by simp
qed








text \<open>In plain words, when the pull-request pattern finds nothing in a text.\<close>

lemma pr_pattern_no_match_iff:
  "js_match prRegex url = None \<longleftrightarrow>
     \<not> (\<exists>pre ow rp c post.
           url = pre @ ''github.com/'' @ ow @ ''/'' @ rp @ ''/pull/'' @ c # post
           \<and> ow \<noteq> [] \<and> CHR ''/'' \<notin> set ow \<and> rp \<noteq> [] \<and> CHR ''/'' \<notin> set rp \<and> is_digit c)"
  (is "?L \<longleftrightarrow> \<not> ?R")
proof
  assume l: ?L
  show "\<not> ?R"
  proof
    assume ?R
    then obtain pre ow rp c post where
      url: "url = pre @ ''github.com/'' @ ow @ ''/'' @ rp @ ''/pull/'' @ c # post"
      and h: "ow \<noteq> []" "CHR ''/'' \<notin> set ow" "rp \<noteq> []" "CHR ''/'' \<notin> set rp" "is_digit c"
      by blast
    let ?d = "c # takeWhile is_digit post"
    let ?rest = "dropWhile is_digit post"
    have post: "post = takeWhile is_digit post @ ?rest" by simp
    have "drop (length pre) url = ''github.com/'' @ ow @ ''/'' @ rp @ ''/pull/'' @ c # post"
      unfolding url by simp
    also have "\<dots> = ''github.com/'' @ ow @ ''/'' @ rp @ ''/pull/'' @ ?d @ ?rest"
      by simp
    finally have d: "drop (length pre) url = ''github.com/'' @ ow @ ''/'' @ rp @ ''/pull/'' @ ?d @ ?rest" .
    have "\<forall>x\<in>set ?d. is_digit x" using h(5) by (auto dest: set_takeWhileD)
    moreover have "?rest = [] \<or> \<not> is_digit (hd ?rest)" by (metis hd_dropWhile)
    ultimately have "rx_match prRegex (drop (length pre) url) = Some ([ow, rp, ?d], ?rest)"
      unfolding pr_match_iff d using h by blast
    moreover have "rx_match prRegex (drop (length pre) url) = None"
      using js_match_NoneD[OF l, of "length pre"] url by simp
    ultimately show False by simp
  qed
next
  assume r: "\<not> ?R"
  show ?L
  proof (rule ccontr)
    assume "js_match prRegex url \<noteq> None"
    then obtain w caps where "js_match prRegex url = Some (w, caps)" by auto
    from js_match_SomeD[OF this] obtain pre rest where
      url: "url = pre @ w @ rest" and m: "rx_match prRegex (w @ rest) = Some (caps, rest)" by blast
    from m obtain ow rp d where
      eq: "w @ rest = ''github.com/'' @ ow @ ''/'' @ rp @ ''/pull/'' @ d @ rest"
      and h: "ow \<noteq> []" "CHR ''/'' \<notin> set ow" "rp \<noteq> []" "CHR ''/'' \<notin> set rp"
        "d \<noteq> []" "\<forall>x\<in>set d. is_digit x"
      unfolding pr_match_iff by blast
    obtain c d' where dc: "d = c # d'" using h(5) by (cases d) auto
    have "url = pre @ ''github.com/'' @ ow @ ''/'' @ rp @ ''/pull/'' @ c # (d' @ rest)"
      using url eq dc by simp
    moreover have "is_digit c" using h(6) dc by simp
    ultimately show False using r h(1-4) by blast
  qed
qed

lemma parse_two_branches:
  "parseGitHubUrl ''https://github.com/acme/widgets/compare/main...feat''
     = Inr (Compare \<lparr>c_owner = ''acme'', c_repo = ''widgets'', base = ''main'', head = ''feat''\<rparr>)"
  by code_simp

lemma parse_pr_url:
  assumes "ow \<noteq> []" "CHR ''/'' \<notin> set ow" "rp \<noteq> []" "CHR ''/'' \<notin> set rp"
    and "d \<noteq> []" "\<forall>c\<in>set d. is_digit c" "x = [] \<or> \<not> is_digit (hd x)"
  shows "parseGitHubUrl (''https://github.com/'' @ ow @ ''/'' @ rp @ ''/pull/'' @ d @ x) =
           (if 0 < digits_val d
            then Inr (Pr \<lparr>owner = ow, repo = rp, pull_number = digits_val d\<rparr>)
            else Inl (Error ''Invalid pull number in URL''))"
proof -
  have p: "parseInt d = Some (digits_val d)" using assms(5,6) by (rule parseInt_digits)
  show ?thesis
    unfolding parseGitHubUrl_def pr_url_match[OF assms] using assms(1,3,5) p
    by (simp add: group_def)
qed

lemma parse_pr_url_no_number:
  assumes "CHR ''/'' \<notin> set ow" "CHR ''/'' \<notin> set rp"
    and "n = [] \<or> \<not> is_digit (hd n)" "CHR ''/'' \<notin> set n"
  shows "parseGitHubUrl (''https://github.com/'' @ ow @ ''/'' @ rp @ ''/pull/'' @ n)
           = Inl (Error invalid_url_message)"
  unfolding parseGitHubUrl_def pr_url_no_number[OF assms]
    pr_url_not_compare[OF assms(1,2,4)]
  by simp

section \<open>Properties of the reply handling\<close>

declare parse_value.simps [simp del] parse_elements.simps [simp del] parse_members.simps [simp del]

lemma first_some_append:
  "first_some f (xs @ ys) = (case first_some f xs of Some y \<Rightarrow> Some y | None \<Rightarrow> first_some f ys)"
  by (induction xs) (auto split: option.splits)

lemma json_first_char: "x \<noteq> CHR ''{'' \<Longrightarrow> rx_match jsonRegex (x # xs) = None"
  by (simp add: jsonRegex_def)

lemma json_match_Nil: "rx_match jsonRegex [] = None"
  by (simp add: jsonRegex_def)

lemma takeWhile_any_char: "takeWhile any_char t = t"
  by (simp add: any_char_def)

lemma close_brace_match:
  "rx_match [Lit CHR ''}''] u = (case u of [] \<Rightarrow> None | x # xs \<Rightarrow> if x = CHR ''}'' then Some ([], xs) else None)"
  by (simp split: list.splits)

lemma json_match_last_brace:
  assumes "CHR ''}'' \<notin> set post"
  shows "rx_match jsonRegex (CHR ''{'' # mid @ CHR ''}'' # post) = Some ([], post)"
proof -
  let ?t = "mid @ CHR ''}'' # post"
  let ?f = "\<lambda>k. rx_match [Lit CHR ''}''] (drop k ?t)"
  have lens: "greedy_lens any_char 0 ?t
      = rev [Suc (length mid) ..< Suc (length ?t)] @ (length mid # rev [0 ..< length mid])"
  proof -
    have A: "[0 ..< Suc (length ?t)] = [0 ..< Suc (length mid)] @ [Suc (length mid) ..< Suc (length ?t)]"
      using upt_add_eq_append[of 0 "Suc (length mid)" "Suc (length post)"] by simp
    have B: "[0 ..< Suc (length mid)] = [0 ..< length mid] @ [length mid]" by simp
    show ?thesis unfolding greedy_lens_def takeWhile_any_char A B by (simp del: upt_Suc)
  qed
  have late: "?f k = None" if "k \<in> set (rev [Suc (length mid) ..< Suc (length ?t)])" for k
  proof -
    from that have k: "Suc (length mid) \<le> k" by (simp del: upt_Suc)
    then obtain j where j: "k = Suc (length mid) + j" using le_Suc_ex by blast
    have "drop k ?t = drop j post" unfolding j by simp
    moreover have "CHR ''}'' \<notin> set (drop j post)"
      using assms by (meson in_set_dropD)
    ultimately show ?thesis by (cases "drop k ?t") (auto simp: close_brace_match)
  qed
  have at: "?f (length mid) = Some ([], post)" by simp
  have "rx_match jsonRegex (CHR ''{'' # ?t) = first_some ?f (greedy_lens any_char 0 ?t)"
    by (simp add: jsonRegex_def)
  also have "\<dots> = Some ([], post)"
  proof -
    have 1: "first_some ?f (rev [Suc (length mid) ..< Suc (length ?t)]) = None"
      by (rule first_some_all_None) (rule late)
    have 2: "first_some ?f (length mid # rev [0 ..< length mid]) = Some ([], post)"
      by (simp only: first_some.simps at option.case)
    show ?thesis unfolding lens first_some_append 1 2 by (simp only: option.case)
  qed
  finally show ?thesis .
qed

lemma json_match_brace:
  assumes "rx_match jsonRegex s = Some (caps, rest)"
  shows "\<exists>mid. s = CHR ''{'' # mid @ CHR ''}'' # rest \<and> CHR ''}'' \<notin> set rest \<and> caps = []"
proof -
  have "s \<noteq> []" using assms json_match_Nil by (metis option.distinct(1))
  then obtain x t where xt: "s = x # t" by (cases s) auto
  have "x = CHR ''{''" using assms json_first_char[of x t] unfolding xt
    by (metis option.distinct(1))
  with xt have s: "s = CHR ''{'' # t" by simp
  have "first_some (\<lambda>k. rx_match [Lit CHR ''}''] (drop k t)) (greedy_lens any_char 0 t) = Some (caps, rest)"
    using assms s by (simp add: jsonRegex_def)
  from first_some_SomeD[OF this] obtain k where "rx_match [Lit CHR ''}''] (drop k t) = Some (caps, rest)"
    by blast
  then have "CHR ''}'' \<in> set (drop k t)"
    by (cases "drop k t") (auto simp: close_brace_match split: if_splits)
  then have "CHR ''}'' \<in> set t" by (meson in_set_dropD)
  from split_list_last[OF this] obtain mid post where t: "t = mid @ CHR ''}'' # post"
    and post: "CHR ''}'' \<notin> set post" by blast
  from json_match_last_brace[OF post, of mid] have "rx_match jsonRegex s = Some ([], post)"
    unfolding s t .
  with assms have "caps = []" "rest = post" by simp_all
  with s t post show ?thesis by blast
qed

lemma js_match_json_skip:
  "CHR ''{'' \<notin> set pre \<Longrightarrow> js_match jsonRegex (pre @ s) = js_match jsonRegex s"
  by (induction pre) (auto simp: js_match.simps json_first_char)

lemma js_match_json:
  assumes "CHR ''{'' \<notin> set pre" "CHR ''}'' \<notin> set post"
  shows "js_match jsonRegex (pre @ CHR ''{'' # mid @ CHR ''}'' # post)
           = Some (CHR ''{'' # mid @ ''}'', [])"
proof -
  have "rx_match jsonRegex ((CHR ''{'' # mid @ ''}'') @ post) = Some ([], post)"
    using json_match_last_brace[OF assms(2), of mid] by simp
  then have "js_match jsonRegex ((CHR ''{'' # mid @ ''}'') @ post) = Some (CHR ''{'' # mid @ ''}'', [])"
    by (rule js_match_hit_append)
  then show ?thesis using js_match_json_skip[OF assms(1)] by simp
qed

lemma js_match_json_SomeD:
  "js_match jsonRegex reply = Some (whole, caps) \<Longrightarrow>
     \<exists>pre mid post. reply = pre @ CHR ''{'' # mid @ CHR ''}'' # post
        \<and> CHR ''{'' \<notin> set pre \<and> CHR ''}'' \<notin> set post \<and> whole = CHR ''{'' # mid @ ''}''"
proof (induction reply)
  case Nil
  then show ?case by (simp add: js_match.simps json_match_Nil)
next
  case (Cons x xs)
  show ?case
  proof (cases "rx_match jsonRegex (x # xs)")
    case (Some a)
    obtain caps' rest where a: "a = (caps', rest)" by (cases a)
    from json_match_brace[OF Some[unfolded a]] obtain mid where
      eq: "x # xs = CHR ''{'' # mid @ CHR ''}'' # rest" and r: "CHR ''}'' \<notin> set rest" by blast
    have "js_match jsonRegex ((CHR ''{'' # mid @ ''}'') @ rest) = Some (CHR ''{'' # mid @ ''}'', caps')"
      using Some a eq by (intro js_match_hit_append) simp
    with Cons.prems eq have "whole = CHR ''{'' # mid @ ''}''" by simp
    with eq r have "x # xs = [] @ CHR ''{'' # mid @ CHR ''}'' # rest \<and> CHR ''{'' \<notin> set []
        \<and> CHR ''}'' \<notin> set rest \<and> whole = CHR ''{'' # mid @ ''}''" by simp
    then show ?thesis by blast
  next
    case None
    with Cons.prems have "js_match jsonRegex xs = Some (whole, caps)" by (simp add: js_match.simps)
    from Cons.IH[OF this] obtain pre mid post where
      xs: "xs = pre @ CHR ''{'' # mid @ CHR ''}'' # post" and p: "CHR ''{'' \<notin> set pre"
      "CHR ''}'' \<notin> set post" and w: "whole = CHR ''{'' # mid @ ''}''" by blast
    have "x \<noteq> CHR ''{''"
    proof
      assume "x = CHR ''{''"
      then have "x # xs = CHR ''{'' # (pre @ CHR ''{'' # mid) @ CHR ''}'' # post" using xs by simp
      with json_match_last_brace[OF p(2), of "pre @ CHR ''{'' # mid"] None show False by simp
    qed
    with xs p w have "x # xs = (x # pre) @ CHR ''{'' # mid @ CHR ''}'' # post
        \<and> CHR ''{'' \<notin> set (x # pre) \<and> CHR ''}'' \<notin> set post \<and> whole = CHR ''{'' # mid @ ''}''"
      by simp
    then show ?thesis by blast
  qed
qed

lemma js_match_json_None:
  "CHR ''{'' \<notin> set reply \<or> CHR ''}'' \<notin> set reply \<Longrightarrow> js_match jsonRegex reply = None"
proof (rule ccontr)
  assume h: "CHR ''{'' \<notin> set reply \<or> CHR ''}'' \<notin> set reply" and "js_match jsonRegex reply \<noteq> None"
  then obtain whole caps where "js_match jsonRegex reply = Some (whole, caps)" by auto
  from js_match_json_SomeD[OF this] h show False by auto
qed

lemma JSON_parse_object:
  assumes "JSON_parse (CHR ''{'' # t) = Inr v"
  shows "\<exists>ms. v = JObject ms"
proof -
  have sk: "skip_ws (CHR ''{'' # t) = CHR ''{'' # t"
    by (simp add: skip_ws_def is_json_ws_def)
  from assms obtain r where "parse_value (CHR ''{'' # t) = Some (v, r)"
    unfolding JSON_parse_def sk by (auto split: option.splits if_splits)
  then show ?thesis
    by (subst (asm) parse_value.simps) (auto split: list.splits if_splits option.splits)
qed

lemma JSON_parse_example:
  "JSON_parse ''{\"title\":\"feat(x): y\",\"description\":\"z\"}''
     = Inr (JObject [(units ''title'', JString (units ''feat(x): y'')),
                     (units ''description'', JString (units ''z''))])"
  by code_simp

lemma JSON_parse_empty_object: "JSON_parse ''{}'' = Inr (JObject [])"
  by code_simp

lemma parse_reply_Inr_iff:
  "parse_reply content = Inr v \<longleftrightarrow>
     (\<exists>reply others pre mid post.
        content = TextBlock reply # others
        \<and> reply = pre @ CHR ''{'' # mid @ CHR ''}'' # post
        \<and> CHR ''{'' \<notin> set pre \<and> CHR ''}'' \<notin> set post
        \<and> JSON_parse (CHR ''{'' # mid @ ''}'') = Inr v)"
  (is "?L \<longleftrightarrow> ?R")
proof
  assume l: ?L
  then obtain reply others where c: "content = TextBlock reply # others"
    by (auto simp: parse_reply_def split: list.splits content_block.splits)
  from l c obtain whole caps where m: "js_match jsonRegex reply = Some (whole, caps)"
    and p: "JSON_parse whole = Inr v"
    by (auto simp: parse_reply_def split: option.splits)
  from js_match_json_SomeD[OF m] p c show ?R by blast
next
  assume ?R
  then obtain reply others pre mid post where c: "content = TextBlock reply # others"
    and r: "reply = pre @ CHR ''{'' # mid @ CHR ''}'' # post"
    and b: "CHR ''{'' \<notin> set pre" "CHR ''}'' \<notin> set post"
    and p: "JSON_parse (CHR ''{'' # mid @ ''}'') = Inr v" by blast
  show ?L unfolding c r parse_reply_def using js_match_json[OF b, of mid] p by simp
qed

section \<open>Properties of the driver\<close>

lemmas io_defs = io_bind_def io_then_def io_return_def lift_def call_def logs_def process_exit_def

lemma main_runs_try_block:
  assumes "argv w = url # others" "''--help'' \<notin> set (argv w)" "''-h'' \<notin> set (argv w)"
    and "\<not> falsy (GITHUB_PRD_TOKEN w)" "\<not> falsy (ANTHROPIC_API_KEY w)" "url \<noteq> []"
  shows "main w = finish (try_block w url)"
  using assms by (auto simp: main_def)

lemma parse_success_nonempty: "parseGitHubUrl url = Inr r \<Longrightarrow> url \<noteq> []"
  by (auto simp: parseGitHubUrl_def)

lemma main_events_cases:
  assumes "e \<in> set (fst (main w))"
  shows "e = Stdout [S usage] \<or> (\<exists>l. e = Stderr l)
       \<or> (\<exists>url others. argv w = url # others \<and> e \<in> set (fst (try_block w url)))"
proof (cases "argv w")
  case Nil
  with assms show ?thesis by (simp add: main_def)
next
  case (Cons url others)
  with assms show ?thesis
    by (auto simp: main_def finish_def split: if_splits prod.splits sum.splits stop.splits)
qed

lemma compare_workflow_no_update:
  "Request (PullsUpdate pd body) \<notin> set (fst (compare_workflow w d))"
  by (auto simp: compare_workflow_def fetchCompareChanges_def generateTitleAndDescription_def
        io_defs split: sum.splits option.splits prod.splits if_splits)

lemma pr_workflow_update:
  "Request (PullsUpdate pd body) \<in> set (fst (pr_workflow w d)) \<Longrightarrow> pd = d"
  by (auto simp: pr_workflow_def fetchPRChanges_def generateTitleAndDescription_def
        updatePRDescription_def io_defs rule_line_def
        split: sum.splits option.splits prod.splits if_splits)

lemma try_block_update:
  assumes "Request (PullsUpdate pd body) \<in> set (fst (try_block w url))"
  shows "parseGitHubUrl url = Inr (Pr pd)"
proof (cases "parseGitHubUrl url")
  case (Inl e)
  with assms show ?thesis by (simp add: try_block_def io_defs)
next
  case (Inr r)
  show ?thesis
  proof (cases r)
    case (Pr d)
    with Inr assms have "Request (PullsUpdate pd body) \<in> set (fst (pr_workflow w d))"
      by (auto simp: try_block_def io_defs split: prod.splits)
    then have "pd = d" by (rule pr_workflow_update)
    with Inr Pr show ?thesis by simp
  next
    case (Compare d)
    with Inr assms have "Request (PullsUpdate pd body) \<in> set (fst (compare_workflow w d))"
      by (auto simp: try_block_def io_defs split: prod.splits)
    with compare_workflow_no_update show ?thesis by blast
  qed
qed

lemma parse_pull_42:
  "parseGitHubUrl ''https://github.com/acme/widgets/pull/42''
     = Inr (Pr \<lparr>owner = ''acme'', repo = ''widgets'', pull_number = 42\<rparr>)"
  using parse_pr_url[of "''acme''" "''widgets''" "''42''" "[]"]
  by (simp add: is_digit_def digits_val_def digit_val_def)

lemma parse_reply_login:
  "parse_reply [TextBlock ''{\"title\":\"feat(auth): add login flow\",\"description\":\"## Summary\"}'']
     = Inr (JObject [(units ''title'', JString (units ''feat(auth): add login flow'')),
                     (units ''description'', JString (units ''## Summary''))])"
  by code_simp

lemma build_prompt_empty:
  "sublist (''Files Changed (0 files):'' @ nl @ ''[]'' @ nl) (build_prompt [] ctx)"
proof -
  have "build_prompt [] ctx =
      (''Analyze these GitHub changes and generate a clear, concise PR title and description.''
        @ nl @ contextInfo ctx @ nl)
      @ (''Files Changed (0 files):'' @ nl @ ''[]'' @ nl) @ (nl @ prompt_instructions)"
    by (simp add: build_prompt_def stringify_files_def)
  then show ?thesis by (metis sublist_appendI)
qed

lemma pr_path_requests:
  assumes "argv w = url # others" "''--help'' \<notin> set (argv w)" "''-h'' \<notin> set (argv w)"
    and "\<not> falsy (GITHUB_PRD_TOKEN w)" "\<not> falsy (ANTHROPIC_API_KEY w)"
    and "parseGitHubUrl url = Inr (Pr d)"
    and "pulls_get w d = Inr pr" "pulls_listFiles w d = Inr files"
    and "ctx = Some \<lparr>currentTitle = Some (pr_title pr), currentBody = pr_body pr,
                     ctx_base = None, ctx_head = None\<rparr>"
  shows "Request (MessagesCreate ''claude-haiku-4-20250514'' 2048 (build_prompt files ctx))
           \<in> set (fst (main w))"
    and "messages_create w (build_prompt files ctx) = Inr content \<Longrightarrow> parse_reply content = Inr g
           \<Longrightarrow> Request (PullsUpdate d (get_prop g ''description'')) \<in> set (fst (main w))"
proof -
  have m: "main w = finish (try_block w url)"
    using main_runs_try_block[OF assms(1-5) parse_success_nonempty[OF assms(6)]] .
  show "Request (MessagesCreate ''claude-haiku-4-20250514'' 2048 (build_prompt files ctx))
           \<in> set (fst (main w))"
    unfolding m using assms(6-9)
    by (auto simp: try_block_def pr_workflow_def fetchPRChanges_def
          generateTitleAndDescription_def updatePRDescription_def finish_def io_defs
          split: sum.splits prod.splits stop.splits)
  show "Request (PullsUpdate d (get_prop g ''description'')) \<in> set (fst (main w))"
    if "messages_create w (build_prompt files ctx) = Inr content" "parse_reply content = Inr g"
    unfolding m using assms(6-9) that
    by (auto simp: try_block_def pr_workflow_def fetchPRChanges_def
          generateTitleAndDescription_def updatePRDescription_def finish_def io_defs
          split: sum.splits prod.splits stop.splits)
qed

lemma example_pull_request_updated:
  "Request (PullsUpdate \<lparr>owner = ''acme'', repo = ''widgets'', pull_number = 42\<rparr>
                (Some (JString (units ''## Summary''))))
     \<in> set (fst (main (example_world ''https://github.com/acme/widgets/pull/42'' files
          [TextBlock ''{\"title\":\"feat(auth): add login flow\",\"description\":\"## Summary\"}''])))"
proof -
  let ?r = "[TextBlock ''{\"title\":\"feat(auth): add login flow\",\"description\":\"## Summary\"}'']"
  let ?w = "example_world ''https://github.com/acme/widgets/pull/42'' files ?r"
  let ?g = "JObject [(units ''title'', JString (units ''feat(auth): add login flow'')),
                     (units ''description'', JString (units ''## Summary''))]"
  have g: "get_prop ?g ''description'' = Some (JString (units ''## Summary''))"
    by (simp add: units_def)
  show ?thesis
    using pr_path_requests(2)[of ?w "''https://github.com/acme/widgets/pull/42''"
        "[]" "\<lparr>owner = ''acme'', repo = ''widgets'', pull_number = 42\<rparr>"
        "\<lparr>pr_title = ''Add login'', pr_body = None,
          html_url = ''https://github.com/acme/widgets/pull/42''\<rparr>"
        files
        "Some \<lparr>currentTitle = Some ''Add login'', currentBody = None,
                ctx_base = None, ctx_head = None\<rparr>"
        ?r ?g]
      parse_pull_42 parse_reply_login g
    by (simp add: example_world_def)
qed

section \<open>The claims about the URL parser\<close>

text \<open>
  Claim C4, as amended. For an owner and a repository name that are non-empty and without a
  slash: when the text after \<open>/pull/\<close> begins with decimal digits \<open>d\<close> (followed by nothing or
  by a character that is not a digit) that denote a number up to \<open>2 ^ 53\<close>, the URL parses to
  the pull request with that owner, that repository and that number if the number is
  positive, and parsing fails with "Invalid pull number in URL" if it is zero; when the text
  after \<open>/pull/\<close> is empty or begins with a character that is not a digit, and has no slash,
  parsing fails with the message naming the two accepted URL shapes.
\<close>

theorem pull_request_url_parsed:
  assumes "ow \<noteq> []" "CHR ''/'' \<notin> set ow" "rp \<noteq> []" "CHR ''/'' \<notin> set rp"
  shows "(d \<noteq> [] \<and> (\<forall>c\<in>set d. is_digit c) \<and> digits_val d \<le> 2 ^ 53
          \<and> (x = [] \<or> \<not> is_digit (hd x)) \<longrightarrow>
            parseGitHubUrl (''https://github.com/'' @ ow @ ''/'' @ rp @ ''/pull/'' @ d @ x) =
              (if 0 < digits_val d
               then Inr (Pr \<lparr>owner = ow, repo = rp, pull_number = digits_val d\<rparr>)
               else Inl (Error ''Invalid pull number in URL'')))
       \<and> ((n = [] \<or> \<not> is_digit (hd n)) \<and> CHR ''/'' \<notin> set n \<longrightarrow>
            parseGitHubUrl (''https://github.com/'' @ ow @ ''/'' @ rp @ ''/pull/'' @ n)
              = Inl (Error invalid_url_message))"
  using parse_pr_url[OF assms, of d x] parse_pr_url_no_number[OF assms(2,4), of n]
  by blast

theorem pull_request_url_parsed_witness:
  "parseGitHubUrl ''https://github.com/acme/widgets/pull/42''
     = Inr (Pr \<lparr>owner = ''acme'', repo = ''widgets'', pull_number = 42\<rparr>)
   \<and> parseGitHubUrl ''https://github.com/acme/widgets/pull/0''
     = Inl (Error ''Invalid pull number in URL'')
   \<and> parseGitHubUrl ''https://github.com/acme/widgets/pull/abc''
     = Inl (Error invalid_url_message)"
  using pull_request_url_parsed[of "''acme''" "''widgets''" "''42''" "[]" "''abc''"]
    pull_request_url_parsed[of "''acme''" "''widgets''" "''0''" "[]" "''abc''"]
  by (simp add: is_digit_def digits_val_def digit_val_def)

text \<open>
  Claim C4 as stated fails: a text after \<open>/pull/\<close> that is not a number, but begins with a
  digit, is accepted, since the pattern is not anchored at its end.
\<close>

theorem non_numeric_number_accepted:
  "parseGitHubUrl ''https://github.com/acme/widgets/pull/12abc''
     = Inr (Pr \<lparr>owner = ''acme'', repo = ''widgets'', pull_number = 12\<rparr>)
   \<and> \<not> (\<forall>c\<in>set ''12abc''. is_digit c)"
  using parse_pr_url[of "''acme''" "''widgets''" "''12''" "''abc''"]
  by (simp add: is_digit_def digits_val_def digit_val_def)







section \<open>The claims about the content generator\<close>

text \<open>
  Claim C3. A reply in which the object \<open>{"title":"feat(x): y","description":"z"}\<close> stands
  inside prose (without an opening brace before it and without a closing brace after it) is
  parsed to the object with that title and that description; a reply without any brace
  yields the error "Could not parse JSON response from Claude".
\<close>

theorem reply_example_parsed:
  "(CHR ''{'' \<notin> set pre \<and> CHR ''}'' \<notin> set post \<longrightarrow>
      parse_reply [TextBlock (pre @ ''{\"title\":\"feat(x): y\",\"description\":\"z\"}'' @ post)]
        = Inr (JObject [(units ''title'', JString (units ''feat(x): y'')),
                        (units ''description'', JString (units ''z''))]))
   \<and> (CHR ''{'' \<notin> set reply \<and> CHR ''}'' \<notin> set reply \<longrightarrow>
      parse_reply [TextBlock reply] = Inl (Error ''Could not parse JSON response from Claude''))"
proof (intro conjI impI)
  assume h: "CHR ''{'' \<notin> set pre \<and> CHR ''}'' \<notin> set post"
  have "js_match jsonRegex (pre @ CHR ''{'' # ''\"title\":\"feat(x): y\",\"description\":\"z\"'' @ CHR ''}'' # post)
          = Some (CHR ''{'' # ''\"title\":\"feat(x): y\",\"description\":\"z\"'' @ ''}'', [])"
    using h by (intro js_match_json) simp_all
  then have "js_match jsonRegex (pre @ ''{\"title\":\"feat(x): y\",\"description\":\"z\"}'' @ post)
          = Some (''{\"title\":\"feat(x): y\",\"description\":\"z\"}'', [])"
    by simp
  then show "parse_reply [TextBlock (pre @ ''{\"title\":\"feat(x): y\",\"description\":\"z\"}'' @ post)]
        = Inr (JObject [(units ''title'', JString (units ''feat(x): y'')),
                        (units ''description'', JString (units ''z''))])"
    by (simp add: parse_reply_def JSON_parse_example)
next
  assume "CHR ''{'' \<notin> set reply \<and> CHR ''}'' \<notin> set reply"
  then have "js_match jsonRegex reply = None" using js_match_json_None by blast
  then show "parse_reply [TextBlock reply] = Inl (Error ''Could not parse JSON response from Claude'')"
    by (simp add: parse_reply_def)
qed

theorem reply_example_parsed_witness:
  "parse_reply [TextBlock ''Here you go: {\"title\":\"feat(x): y\",\"description\":\"z\"} Done.'']
        = Inr (JObject [(units ''title'', JString (units ''feat(x): y'')),
                        (units ''description'', JString (units ''z''))])
   \<and> parse_reply [TextBlock ''I cannot help with that.'']
        = Inl (Error ''Could not parse JSON response from Claude'')"
  using reply_example_parsed[of "''Here you go: ''" "'' Done.''" "''I cannot help with that.''"]
  by simp

text \<open>
  Claim C1, as amended. The reply handling returns a value exactly when the first content
  block is a text block, its text has an opening brace followed later by a closing brace,
  and the text from the first opening brace to the last closing brace is valid JSON; the
  value returned is that parsed object, whatever its members are. In every other case the
  result is an error.
\<close>

theorem reply_returned_unvalidated:
  "(parse_reply content = Inr v \<longleftrightarrow>
     (\<exists>reply others pre mid post.
        content = TextBlock reply # others
        \<and> reply = pre @ CHR ''{'' # mid @ CHR ''}'' # post
        \<and> CHR ''{'' \<notin> set pre \<and> CHR ''}'' \<notin> set post
        \<and> JSON_parse (CHR ''{'' # mid @ ''}'') = Inr v))
   \<and> (parse_reply content = Inr v \<longrightarrow> (\<exists>ms. v = JObject ms))"
proof -
  have "\<exists>ms. v = JObject ms" if "parse_reply content = Inr v"
  proof -
    from that obtain mid where "JSON_parse (CHR ''{'' # mid @ ''}'') = Inr v"
      unfolding parse_reply_Inr_iff by blast
    then show ?thesis by (rule JSON_parse_object)
  qed
  then show ?thesis using parse_reply_Inr_iff[of content v] by blast
qed

theorem reply_returned_unvalidated_witness:
  "parse_reply [TextBlock ''Result: {\"title\":\"feat(x): y\",\"description\":\"z\"}'']
     = Inr (JObject [(units ''title'', JString (units ''feat(x): y'')),
                     (units ''description'', JString (units ''z''))])
   \<and> (\<exists>ms. JObject [(units ''title'', JString (units ''feat(x): y'')),
                     (units ''description'', JString (units ''z''))] = JObject ms)"
proof -
  let ?v = "JObject [(units ''title'', JString (units ''feat(x): y'')),
                     (units ''description'', JString (units ''z''))]"
  let ?c = "[TextBlock ''Result: {\"title\":\"feat(x): y\",\"description\":\"z\"}'']"
  have "\<exists>reply others pre mid post.
        ?c = TextBlock reply # others
        \<and> reply = pre @ CHR ''{'' # mid @ CHR ''}'' # post
        \<and> CHR ''{'' \<notin> set pre \<and> CHR ''}'' \<notin> set post
        \<and> JSON_parse (CHR ''{'' # mid @ ''}'') = Inr ?v"
    apply (rule exI[of _ "''Result: {\"title\":\"feat(x): y\",\"description\":\"z\"}''"])
    apply (rule exI[of _ "[]"])
    apply (rule exI[of _ "''Result: ''"])
    apply (rule exI[of _ "''\"title\":\"feat(x): y\",\"description\":\"z\"''"])
    apply (rule exI[of _ "[]"])
    using JSON_parse_example by simp
  then have "parse_reply ?c = Inr ?v"
    using reply_returned_unvalidated[of ?c ?v] by blast
  then show ?thesis by blast
qed

text \<open>
  Claim C1 as stated fails: the parsed object is returned without a look at its members. The
  reply \<open>{}\<close> is returned, and has neither a title nor a description.
\<close>

theorem reply_without_fields_returned:
  "parse_reply [TextBlock ''{}''] = Inr (JObject [])
   \<and> get_prop (JObject []) ''title'' = None
   \<and> get_prop (JObject []) ''description'' = None"
  using js_match_json[of "[]" "[]" "[]"] JSON_parse_empty_object
  by (simp add: parse_reply_def)

section \<open>The claims about the driver\<close>

text \<open>
  Claim C10. Without arguments, or with \<open>--help\<close> or \<open>-h\<close> anywhere among the arguments,
  \<open>main\<close> prints the usage text and exits with status 0, whatever the environment holds:
  the test comes before the credentials are read.
\<close>

theorem help_before_credentials:
  assumes "argv w = [] \<or> ''--help'' \<in> set (argv w) \<or> ''-h'' \<in> set (argv w)"
  shows "main w = ([Stdout [S usage]], 0)"
  using assms by (cases "argv w") (auto simp: main_def)

theorem help_before_credentials_witness:
  "main (silent_world [''https://github.com/acme/widgets/pull/42'', ''-h''] None None)
     = ([Stdout [S usage]], 0)"
  using help_before_credentials[of "silent_world [''https://github.com/acme/widgets/pull/42'', ''-h''] None None"]
  by (simp add: silent_world_def)

text \<open>
  Claim C6, as amended. In every invocation with at least one argument and without \<open>--help\<close>
  and \<open>-h\<close>, in which one of the two credentials is absent (or empty), \<open>main\<close> prints one
  line to the error stream, naming the first missing variable, and exits with status 1; the
  run has no other event, so no request is sent.
\<close>

theorem missing_credential_exits:
  assumes "argv w \<noteq> []" "''--help'' \<notin> set (argv w)" "''-h'' \<notin> set (argv w)"
    and "falsy (GITHUB_PRD_TOKEN w) \<or> falsy (ANTHROPIC_API_KEY w)"
  shows "main w =
           ([Stderr [S (''Error: ''
                        @ (if falsy (GITHUB_PRD_TOKEN w) then ''GITHUB_PRD_TOKEN''
                           else ''ANTHROPIC_API_KEY'')
                        @ '' environment variable is required'')]], 1)"
  using assms by (cases "argv w") (auto simp: main_def)

theorem missing_credential_exits_witness:
  "main (silent_world [''https://github.com/acme/widgets/pull/42''] (Some ''ghp_x'') None)
     = ([Stderr [S ''Error: ANTHROPIC_API_KEY environment variable is required'']], 1)"
  using missing_credential_exits[of "silent_world [''https://github.com/acme/widgets/pull/42''] (Some ''ghp_x'') None"]
  by (simp add: silent_world_def)

text \<open>
  Claim C6 as stated fails: without arguments the usage text is printed and the exit status
  is 0, also when both credentials are absent.
\<close>

theorem missing_credential_help_exits_zero:
  "main (silent_world [] None None) = ([Stdout [S usage]], 0)"
  by (simp add: main_def silent_world_def)

text \<open>
  Claim C7. On the compare path, when the comparison has no changed files (the list is empty
  or absent), \<open>main\<close> prints the "no changes" message after the comparison was fetched and
  exits with status 0; no request goes to the model.
\<close>

theorem no_changes_short_circuit:
  assumes "argv w = url # others" "''--help'' \<notin> set (argv w)" "''-h'' \<notin> set (argv w)"
    and "\<not> falsy (GITHUB_PRD_TOKEN w)" "\<not> falsy (ANTHROPIC_API_KEY w)"
    and "parseGitHubUrl url = Inr (Compare d)"
    and "compareCommitsWithBasehead w (c_owner d) (c_repo d) (base d @ ''...'' @ head d) = Inr files"
    and "files = None \<or> files = Some []"
  shows "main w =
     ([Stdout [U 0x1F50D, S '' Parsing GitHub URL...''],
       Stdout [S ''   Type: Compare''],
       Stdout [S ''   Owner: '', S (c_owner d)],
       Stdout [S ''   Repo: '', S (c_repo d)],
       Stdout [S ''   Comparing: '', S (base d), S ''...'', S (head d)],
       Stdout [S nl, U 0x1F4E5, S '' Fetching comparison changes...''],
       Request (CompareCommits (c_owner d) (c_repo d) (base d @ ''...'' @ head d)),
       Stdout [S ''   Found '', N 0, S '' changed files''],
       Stdout [S nl, U 0x26A0, U 0xFE0F, S ''  No file changes found in this comparison.'']],
      0)
    \<and> (\<forall>m n p. Request (MessagesCreate m n p) \<notin> set (fst (main w)))"
proof -
  have "url \<noteq> []" using assms(6) by (auto simp: parseGitHubUrl_def)
  then have "main w = finish (try_block w url)"
    using assms(1-5) by (auto simp: main_def)
  moreover have "finish (try_block w url) =
     ([Stdout [U 0x1F50D, S '' Parsing GitHub URL...''],
       Stdout [S ''   Type: Compare''],
       Stdout [S ''   Owner: '', S (c_owner d)],
       Stdout [S ''   Repo: '', S (c_repo d)],
       Stdout [S ''   Comparing: '', S (base d), S ''...'', S (head d)],
       Stdout [S nl, U 0x1F4E5, S '' Fetching comparison changes...''],
       Request (CompareCommits (c_owner d) (c_repo d) (base d @ ''...'' @ head d)),
       Stdout [S ''   Found '', N 0, S '' changed files''],
       Stdout [S nl, U 0x26A0, U 0xFE0F, S ''  No file changes found in this comparison.'']],
      0)"
    using assms(6-8)
    by (auto simp: try_block_def compare_workflow_def fetchCompareChanges_def finish_def io_defs)
  ultimately show ?thesis by simp
qed

theorem no_changes_short_circuit_witness:
  "main (example_world ''https://github.com/acme/widgets/compare/main...feat'' [] []) =
     ([Stdout [U 0x1F50D, S '' Parsing GitHub URL...''],
       Stdout [S ''   Type: Compare''],
       Stdout [S ''   Owner: '', S ''acme''],
       Stdout [S ''   Repo: '', S ''widgets''],
       Stdout [S ''   Comparing: '', S ''main'', S ''...'', S ''feat''],
       Stdout [S nl, U 0x1F4E5, S '' Fetching comparison changes...''],
       Request (CompareCommits ''acme'' ''widgets'' ''main...feat''),
       Stdout [S ''   Found '', N 0, S '' changed files''],
       Stdout [S nl, U 0x26A0, U 0xFE0F, S ''  No file changes found in this comparison.'']],
      0)
    \<and> (\<forall>m n p. Request (MessagesCreate m n p)
           \<notin> set (fst (main (example_world ''https://github.com/acme/widgets/compare/main...feat'' [] []))))"
  using no_changes_short_circuit[of
      "example_world ''https://github.com/acme/widgets/compare/main...feat'' [] []"
      "''https://github.com/acme/widgets/compare/main...feat''" "[]"
      "\<lparr>c_owner = ''acme'', c_repo = ''widgets'', base = ''main'', head = ''feat''\<rparr>"
      "Some []"]
    parse_two_branches
  by (simp add: example_world_def)

text \<open>
  Claim C8. A run sends an update request for a pull request only when the URL parsed to
  that pull request; when the URL parsed to a comparison, the run has no update request.
\<close>

theorem update_only_on_pull_request_path:
  "(Request (PullsUpdate pd body) \<in> set (fst (main w)) \<longrightarrow>
      (\<exists>url others. argv w = url # others \<and> parseGitHubUrl url = Inr (Pr pd)))
   \<and> (argv w = url # others \<and> parseGitHubUrl url = Inr (Compare d) \<longrightarrow>
      Request (PullsUpdate pd body) \<notin> set (fst (main w)))"
proof -
  have a: "\<exists>url others. argv w = url # others \<and> parseGitHubUrl url = Inr (Pr pd)"
    if "Request (PullsUpdate pd body) \<in> set (fst (main w))"
  proof -
    from main_events_cases[OF that] obtain url others where
      "argv w = url # others" "Request (PullsUpdate pd body) \<in> set (fst (try_block w url))"
      by auto
    with try_block_update show ?thesis by blast
  qed
  then show ?thesis by auto
qed

theorem update_only_on_pull_request_path_witness:
  "(\<exists>url others.
      argv (example_world ''https://github.com/acme/widgets/pull/42'' []
        [TextBlock ''{\"title\":\"feat(auth): add login flow\",\"description\":\"## Summary\"}''])
        = url # others
      \<and> parseGitHubUrl url
          = Inr (Pr \<lparr>owner = ''acme'', repo = ''widgets'', pull_number = 42\<rparr>))
   \<and> Request (PullsUpdate \<lparr>owner = ''acme'', repo = ''widgets'', pull_number = 42\<rparr> None)
       \<notin> set (fst (main (example_world ''https://github.com/acme/widgets/compare/main...feat''
                          [] [])))"
proof -
  have 1: "argv (example_world ''https://github.com/acme/widgets/compare/main...feat'' [] [])
             = ''https://github.com/acme/widgets/compare/main...feat'' # []"
    by (simp add: example_world_def)
  show ?thesis
    using update_only_on_pull_request_path[
        where pd = "\<lparr>owner = ''acme'', repo = ''widgets'', pull_number = 42\<rparr>"
          and body = "Some (JString (units ''## Summary''))"
          and w = "example_world ''https://github.com/acme/widgets/pull/42'' []
          [TextBlock ''{\"title\":\"feat(auth): add login flow\",\"description\":\"## Summary\"}'']"]
      update_only_on_pull_request_path[
        where pd = "\<lparr>owner = ''acme'', repo = ''widgets'', pull_number = 42\<rparr>"
          and body = None
          and w = "example_world ''https://github.com/acme/widgets/compare/main...feat'' [] []"
          and url = "''https://github.com/acme/widgets/compare/main...feat''"
          and others = "[]"
          and d = "\<lparr>c_owner = ''acme'', c_repo = ''widgets'', base = ''main'', head = ''feat''\<rparr>"]
      example_pull_request_updated[of "[]"] parse_two_branches 1
    by blast
qed

text \<open>
  Claim C9. On the pull-request path there is no test for an empty list of files: when the
  pull request has no changed files, the request to the model is still sent, its prompt
  holds the file count 0 and the empty array \<open>[]\<close>, and when the reply parses, the update
  request with the generated description is still sent.
\<close>

theorem empty_pull_request_still_generated:
  assumes "argv w = url # others" "''--help'' \<notin> set (argv w)" "''-h'' \<notin> set (argv w)"
    and "\<not> falsy (GITHUB_PRD_TOKEN w)" "\<not> falsy (ANTHROPIC_API_KEY w)"
    and "parseGitHubUrl url = Inr (Pr d)"
    and "pulls_get w d = Inr pr" "pulls_listFiles w d = Inr []"
    and "ctx = Some \<lparr>currentTitle = Some (pr_title pr), currentBody = pr_body pr,
                     ctx_base = None, ctx_head = None\<rparr>"
  shows "Request (MessagesCreate ''claude-haiku-4-20250514'' 2048 (build_prompt [] ctx))
           \<in> set (fst (main w))
       \<and> sublist (''Files Changed (0 files):'' @ nl @ ''[]'' @ nl) (build_prompt [] ctx)
       \<and> (messages_create w (build_prompt [] ctx) = Inr content \<and> parse_reply content = Inr g
            \<longrightarrow> Request (PullsUpdate d (get_prop g ''description'')) \<in> set (fst (main w)))"
  using pr_path_requests(1)[OF assms] pr_path_requests(2)[OF assms, of content g]
    build_prompt_empty[of ctx]
  by blast

theorem empty_pull_request_still_generated_witness:
  "Request (MessagesCreate ''claude-haiku-4-20250514'' 2048
       (build_prompt [] (Some \<lparr>currentTitle = Some ''Add login'', currentBody = None,
                                ctx_base = None, ctx_head = None\<rparr>)))
     \<in> set (fst (main (example_world ''https://github.com/acme/widgets/pull/42'' []
          [TextBlock ''{\"title\":\"feat(auth): add login flow\",\"description\":\"## Summary\"}''])))
   \<and> sublist (''Files Changed (0 files):'' @ nl @ ''[]'' @ nl)
       (build_prompt [] (Some \<lparr>currentTitle = Some ''Add login'', currentBody = None,
                                ctx_base = None, ctx_head = None\<rparr>))
   \<and> Request (PullsUpdate \<lparr>owner = ''acme'', repo = ''widgets'', pull_number = 42\<rparr>
                (Some (JString (units ''## Summary''))))
     \<in> set (fst (main (example_world ''https://github.com/acme/widgets/pull/42'' []
          [TextBlock ''{\"title\":\"feat(auth): add login flow\",\"description\":\"## Summary\"}''])))"
proof -
  let ?r = "[TextBlock ''{\"title\":\"feat(auth): add login flow\",\"description\":\"## Summary\"}'']"
  let ?w = "example_world ''https://github.com/acme/widgets/pull/42'' [] ?r"
  let ?g = "JObject [(units ''title'', JString (units ''feat(auth): add login flow'')),
                     (units ''description'', JString (units ''## Summary''))]"
  have g: "get_prop ?g ''description'' = Some (JString (units ''## Summary''))"
    by (simp add: units_def)
  show ?thesis
    using empty_pull_request_still_generated[of ?w "''https://github.com/acme/widgets/pull/42''"
        "[]" "\<lparr>owner = ''acme'', repo = ''widgets'', pull_number = 42\<rparr>"
        "\<lparr>pr_title = ''Add login'', pr_body = None,
          html_url = ''https://github.com/acme/widgets/pull/42''\<rparr>"
        "Some \<lparr>currentTitle = Some ''Add login'', currentBody = None,
                ctx_base = None, ctx_head = None\<rparr>"
        ?r ?g]
      parse_pull_42 parse_reply_login g
    by (simp add: example_world_def)
qed

end
